theory Spec2Isabelle
  imports Complex_Main "HOL-Library.Sublist"
begin

section \<open>Strings and characters\<close>

text \<open>
  Message texts are modelled as \<^typ>\<open>string\<close>: lists of 8-bit characters, that is the
  Latin-1 range of JavaScript's UTF-16 code units. Every pattern of the plugin is written
  in ASCII.
\<close>

definition lower_alpha :: string where
  "lower_alpha = ''abcdefghijklmnopqrstuvwxyz''"

definition upper_alpha :: string where
  "upper_alpha = ''ABCDEFGHIJKLMNOPQRSTUVWXYZ''"

definition digits :: string where
  "digits = ''0123456789''"

text \<open>
  Canonicalisation under the \<open>i\<close> flag (without \<open>u\<close>): a character is compared by its
  upper-case form. A non-ASCII character never canonicalises to an ASCII one, so for the
  ASCII patterns of this plugin only the ASCII letters are folded.
\<close>

definition canonicalize :: "char \<Rightarrow> char" where
  "canonicalize c = (case map_of (zip lower_alpha upper_alpha) c of Some u \<Rightarrow> u | None \<Rightarrow> c)"

text \<open>The character classes of the patterns, each already closed under the \<open>i\<close> flag.\<close>

definition digit :: "char \<Rightarrow> bool" where
  \<comment> \<open>\<open>\d\<close>\<close>
  "digit c = (c \<in> set digits)"

definition alpha :: "char \<Rightarrow> bool" where
  \<comment> \<open>\<open>[a-zA-Z]\<close>\<close>
  "alpha c = (c \<in> set lower_alpha \<or> c \<in> set upper_alpha)"

definition alnum :: "char \<Rightarrow> bool" where
  \<comment> \<open>\<open>[a-zA-Z0-9]\<close>\<close>
  "alnum c = (alpha c \<or> digit c)"

definition alnum_hyphen :: "char \<Rightarrow> bool" where
  \<comment> \<open>\<open>[a-zA-Z0-9-]\<close>\<close>
  "alnum_hyphen c = (alnum c \<or> c = CHR ''-'')"

definition alnum_hyphen_underscore :: "char \<Rightarrow> bool" where
  \<comment> \<open>\<open>[a-zA-Z0-9-_]\<close>\<close>
  "alnum_hyphen_underscore c = (alnum c \<or> c = CHR ''-'' \<or> c = CHR ''_'')"

definition hex :: "char \<Rightarrow> bool" where
  \<comment> \<open>\<open>[0-9a-f]\<close> under the \<open>i\<close> flag\<close>
  "hex c = (c \<in> set ''0123456789abcdefABCDEF'')"

definition space :: "char \<Rightarrow> bool" where
  \<comment> \<open>\<open>\s\<close>: tab, line feed, vertical tab, form feed, carriage return, space, no-break space\<close>
  "space c = (c \<in> set [CHR 0x09, CHR 0x0A, CHR 0x0B, CHR 0x0C, CHR 0x0D, CHR 0x20, CHR 0xA0])"

definition colon_or_space :: "char \<Rightarrow> bool" where
  \<comment> \<open>\<open>[:\s]\<close>\<close>
  "colon_or_space c = (c = CHR '':'' \<or> space c)"

definition dot :: "char \<Rightarrow> bool" where
  \<comment> \<open>\<open>.\<close>: any character but a line terminator\<close>
  "dot c = (c \<noteq> CHR 0x0A \<and> c \<noteq> CHR 0x0D)"

text \<open>\<open>String.prototype.includes\<close>: does \<open>w\<close> occur in \<open>s\<close> as a contiguous run?\<close>

fun str_includes :: "string \<Rightarrow> string \<Rightarrow> bool" where
  "str_includes [] w = (w = [])"
| "str_includes (c # cs) w = (prefix w (c # cs) \<or> str_includes cs w)"

section \<open>Regular expressions: a backtracking matcher\<close>

text \<open>
  The plugin's regular expressions are sequences of literals, single classes, greedy
  repetitions of one class, and optional literal runs, with at most one level of
  alternation and one capture group that is ever read (group 1). The matcher below follows
  the backtracking order of ECMAScript: every function returns the ways to continue in
  priority order, a greedy repetition offering its longest run first.
\<close>

datatype item =
    Lit char                     \<comment> \<open>a literal, compared through \<^const>\<open>canonicalize\<close>\<close>
  | Star "char \<Rightarrow> bool"      \<comment> \<open>\<open>C*\<close>\<close>
  | Plus "char \<Rightarrow> bool"      \<comment> \<open>\<open>C+\<close>\<close>
  | Rep nat "char \<Rightarrow> bool"   \<comment> \<open>\<open>C{n}\<close>\<close>
  | Opt string                   \<comment> \<open>\<open>(w)?\<close> for a literal run \<open>w\<close>\<close>

text \<open>
  One alternative of a regular expression: what precedes group 1, group 1 itself, and what
  follows it. A regular expression without a group that is read has everything in
  \<open>before\<close>.
\<close>

record branch =
  before :: "item list"
  group1 :: "item list"
  after :: "item list"

record regex =
  source :: string           \<comment> \<open>what \<open>toString()\<close> returns\<close>
  branches :: "branch list"  \<comment> \<open>the alternatives, in order\<close>

record match_result =
  matched :: string    \<comment> \<open>\<open>match[0]\<close>\<close>
  captured :: string   \<comment> \<open>\<open>match[1]\<close>\<close>

fun star :: "(char \<Rightarrow> bool) \<Rightarrow> string \<Rightarrow> string list" where
  "star C [] = [[]]"
| "star C (c # cs) = (if C c then star C cs @ [c # cs] else [c # cs])"

fun lit_prefix :: "string \<Rightarrow> string \<Rightarrow> bool" where
  "lit_prefix [] s = True"
| "lit_prefix (w # ws) [] = False"
| "lit_prefix (w # ws) (c # cs) = (canonicalize c = canonicalize w \<and> lit_prefix ws cs)"

fun step :: "item \<Rightarrow> string \<Rightarrow> string list" where
  "step (Lit w) [] = []"
| "step (Lit w) (c # cs) = (if canonicalize c = canonicalize w then [cs] else [])"
| "step (Star C) s = star C s"
| "step (Plus C) [] = []"
| "step (Plus C) (c # cs) = (if C c then star C cs else [])"
| "step (Rep n C) s = (if n \<le> length s \<and> list_all C (take n s) then [drop n s] else [])"
| "step (Opt w) s = (if lit_prefix w s then [drop (length w) s, s] else [s])"

fun run :: "item list \<Rightarrow> string \<Rightarrow> string list" where
  "run [] s = [s]"
| "run (i # is) s = concat (map (run is) (step i s))"

definition consumed :: "string \<Rightarrow> string \<Rightarrow> string" where
  \<comment> \<open>the part of \<open>s\<close> in front of its suffix \<open>r\<close>\<close>
  "consumed s r = take (length s - length r) s"

definition branch_at :: "branch \<Rightarrow> string \<Rightarrow> match_result list" where
  "branch_at b s =
     concat (map (\<lambda>s1. concat (map (\<lambda>s2. map (\<lambda>s3.
         \<lparr>matched = consumed s s3, captured = consumed s1 s2\<rparr>) (run (after b) s2))
       (run (group1 b) s1))) (run (before b) s))"

definition match_at :: "regex \<Rightarrow> string \<Rightarrow> match_result list" where
  "match_at r s = concat (map (\<lambda>b. branch_at b s) (branches r))"

text \<open>
  \<open>text.match(r)\<close> for a regular expression without the \<open>g\<close> flag: the first match at the
  leftmost position that has one, \<open>None\<close> for \<open>null\<close>.
\<close>

fun str_match :: "regex \<Rightarrow> string \<Rightarrow> match_result option" where
  "str_match r [] = (case match_at r [] of [] \<Rightarrow> None | m # _ \<Rightarrow> Some m)"
| "str_match r (c # cs) = (case match_at r (c # cs) of [] \<Rightarrow> str_match r cs | m # _ \<Rightarrow> Some m)"

definition test :: "regex \<Rightarrow> string \<Rightarrow> bool" where
  \<comment> \<open>\<open>r.test(text)\<close>\<close>
  "test r s = (str_match r s \<noteq> None)"

definition lits :: "string \<Rightarrow> item list" where
  "lits w = map Lit w"

definition bs :: char where
  \<comment> \<open>the backslash\<close>
  "bs = CHR 0x5C"

definition plain :: "string \<Rightarrow> regex" where
  \<comment> \<open>\<open>/w/i\<close> for a run \<open>w\<close> of literals\<close>
  "plain w = \<lparr>source = ''/'' @ w @ ''/i'',
              branches = [\<lparr>before = lits w, group1 = [], after = []\<rparr>]\<rparr>"

definition gap :: "string \<Rightarrow> string \<Rightarrow> regex" where
  \<comment> \<open>\<open>/v.*w/i\<close>\<close>
  "gap v w = \<lparr>source = ''/'' @ v @ ''.*'' @ w @ ''/i'',
              branches = [\<lparr>before = lits v @ [Star dot] @ lits w, group1 = [], after = []\<rparr>]\<rparr>"

definition any_of :: "string list \<Rightarrow> regex" where
  \<comment> \<open>\<open>/w1|w2|...|wn/i\<close>\<close>
  "any_of ws = \<lparr>source = ''/'' @ concat (map (\<lambda>w. w @ ''|'') (butlast ws)) @ last ws @ ''/i'',
                  branches = map (\<lambda>w. \<lparr>before = lits w, group1 = [], after = []\<rparr>) ws\<rparr>"

section \<open>The pattern library and the field extractors\<close>

subsection \<open>Workload type\<close>

definition WORKLOAD_TYPE_PATTERNS :: "(string \<times> regex list) list" where
  "WORKLOAD_TYPE_PATTERNS =
    [(''media:fast'',
        [plain ''media:fast'', plain ''media fast'', plain ''fast media'', gap ''media'' ''fast'']),
     (''ollama_webui:coder'',
        [plain ''ollama_webui:coder'', plain ''ollama webui:coder'', plain ''ollama webui coder'',
         gap ''ollama'' ''coder'', plain ''coder workload'', plain ''coding workload'',
         gap ''workload'' ''coding'', gap ''workload'' ''code'']),
     (''ollama_webui:fast'',
        [plain ''ollama_webui:fast'', plain ''ollama webui:fast'', plain ''ollama webui fast'',
         gap ''ollama'' ''fast'', plain ''ollama fast'', plain ''fast ollama'']),
     (''ollama_webui:large'',
        [plain ''ollama_webui:large'', plain ''ollama webui:large'', plain ''ollama webui large'',
         gap ''ollama'' ''large'', plain ''large ollama'', plain ''ollama large'']),
     (''llama_webui:coder'',
        [plain ''llama_webui:coder'', plain ''llama webui:coder'', plain ''llama webui coder'',
         gap ''llama'' ''coder'', plain ''llama coder''])]"

text \<open>The inner loop of \<open>extractWorkloadType\<close>: does one of a type's patterns match?\<close>

fun pattern_loop :: "regex list \<Rightarrow> string \<Rightarrow> bool" where
  "pattern_loop [] text = False"
| "pattern_loop (pattern # patterns) text =
     (if test pattern text then True else pattern_loop patterns text)"

text \<open>The outer loop over \<open>Object.entries(WORKLOAD_TYPE_PATTERNS)\<close>, in insertion order.\<close>

fun type_loop :: "(string \<times> regex list) list \<Rightarrow> string \<Rightarrow> string option" where
  "type_loop [] text = None"
| "type_loop ((type, patterns) # entries) text =
     (if pattern_loop patterns text then Some type else type_loop entries text)"

text \<open>The regular expressions of the context-based inference, lines 140 to 158.\<close>

definition coding_words :: regex where
  "coding_words = any_of [''coder'', ''coding'', ''code'', ''developer'', ''development'']"

definition media_words :: regex where
  "media_words = any_of [''media'', ''video'', ''audio'', ''streaming'']"

definition size_words :: regex where
  "size_words = any_of [''large'', ''big'', ''powerful'']"

definition speed_words :: regex where
  "speed_words = any_of [''fast'', ''quick'', ''speed'']"

definition extractWorkloadType :: "string \<Rightarrow> string option" where
  "extractWorkloadType text =
     (if text = [] then None
      else case type_loop WORKLOAD_TYPE_PATTERNS text of
        Some type \<Rightarrow> Some type
      | None \<Rightarrow>
          if str_match coding_words text \<noteq> None then Some ''ollama_webui:coder''
          else if str_match media_words text \<noteq> None then Some ''media:fast''
          else if str_match size_words text \<noteq> None then Some ''ollama_webui:large''
          else if str_match speed_words text \<noteq> None then Some ''ollama_webui:fast''
          else None)"

subsection \<open>Expiration time\<close>

definition minutes_tail :: "item list" where
  \<comment> \<open>\<open>\s*min(ute)?s?\<close>\<close>
  "minutes_tail = [Star space] @ lits ''min'' @ [Opt ''ute'', Opt ''s'']"

definition minutes_tail_source :: string where
  "minutes_tail_source = ''('' @ [bs] @ ''d+)'' @ [bs] @ ''s*min(ute)?s?''"

definition expires_in_pattern :: regex where
  \<comment> \<open>\<open>/expires? in (\d+)\s*min(ute)?s?/i\<close>\<close>
  "expires_in_pattern =
    \<lparr>source = ''/expires? in '' @ minutes_tail_source @ ''/i'',
     branches = [\<lparr>before = lits ''expire'' @ [Opt ''s''] @ lits '' in '',
                  group1 = [Plus digit], after = minutes_tail\<rparr>]\<rparr>"

definition for_pattern :: regex where
  \<comment> \<open>\<open>/for (\d+)\s*min(ute)?s?/i\<close>\<close>
  "for_pattern =
    \<lparr>source = ''/for '' @ minutes_tail_source @ ''/i'',
     branches = [\<lparr>before = lits ''for '', group1 = [Plus digit], after = minutes_tail\<rparr>]\<rparr>"

definition expir_pattern :: regex where
  \<comment> \<open>\<open>/(\d+)\s*min(ute)?s? expir/i\<close>\<close>
  "expir_pattern =
    \<lparr>source = ''/'' @ minutes_tail_source @ '' expir/i'',
     branches = [\<lparr>before = [], group1 = [Plus digit], after = minutes_tail @ lits '' expir''\<rparr>]\<rparr>"

definition minutes_pattern :: regex where
  \<comment> \<open>\<open>/(\d+)\s*min(ute)?s?/i\<close>\<close>
  "minutes_pattern =
    \<lparr>source = ''/'' @ minutes_tail_source @ ''/i'',
     branches = [\<lparr>before = [], group1 = [Plus digit], after = minutes_tail\<rparr>]\<rparr>"

definition hours_pattern :: regex where
  \<comment> \<open>\<open>/(\d+)\s*hours?/i\<close>\<close>
  "hours_pattern =
    \<lparr>source = ''/('' @ [bs] @ ''d+)'' @ [bs] @ ''s*hours?/i'',
     branches = [\<lparr>before = [], group1 = [Plus digit],
                  after = [Star space] @ lits ''hour'' @ [Opt ''s'']\<rparr>]\<rparr>"

definition expirationPatterns :: "regex list" where
  "expirationPatterns =
     [expires_in_pattern, for_pattern, expir_pattern, minutes_pattern, hours_pattern]"

text \<open>
  \<open>Number.parseInt(s, 10)\<close> on a run of decimal digits. Numbers are exact here: the
  rounding of a double beyond \<open>2^53\<close> is not modelled. The result \<open>NaN\<close> for a string
  that does not start with a digit is not represented; group 1 of every expiration
  pattern is \<open>\d+\<close>.
\<close>

definition digit_value :: "char \<Rightarrow> int" where
  "digit_value c = int (of_char c - of_char CHR ''0'')"

definition parseInt :: "string \<Rightarrow> int" where
  "parseInt s = foldl (\<lambda>n c. 10 * n + digit_value c) 0 (takeWhile digit s)"

fun expiration_loop :: "regex list \<Rightarrow> string \<Rightarrow> int \<Rightarrow> int" where
  "expiration_loop [] text defaultMinutes = defaultMinutes"
| "expiration_loop (pattern # patterns) text defaultMinutes =
     (case str_match pattern text of
        None \<Rightarrow> expiration_loop patterns text defaultMinutes
      | Some m \<Rightarrow>
          if captured m = [] then expiration_loop patterns text defaultMinutes
          else let v = parseInt (captured m)
               in if str_includes (source pattern) ''hours'' then v * 60 else v)"

definition extractExpirationTime :: "string \<Rightarrow> int \<Rightarrow> int" where
  "extractExpirationTime text defaultMinutes =
     (if text = [] then defaultMinutes
      else expiration_loop expirationPatterns text defaultMinutes)"

subsection \<open>Workload identifier\<close>

definition uuid_items :: "item list" where
  \<comment> \<open>\<open>[0-9a-f]{8}-[0-9a-f]{4}-[0-9a-f]{4}-[0-9a-f]{4}-[0-9a-f]{12}\<close>\<close>
  "uuid_items = [Rep 8 hex, Lit CHR ''-'', Rep 4 hex, Lit CHR ''-'', Rep 4 hex,
                 Lit CHR ''-'', Rep 4 hex, Lit CHR ''-'', Rep 12 hex]"

definition uuidPattern :: regex where
  "uuidPattern =
    \<lparr>source = ''/([0-9a-f]{8}-[0-9a-f]{4}-[0-9a-f]{4}-[0-9a-f]{4}-[0-9a-f]{12})/i'',
     branches = [\<lparr>before = [], group1 = uuid_items, after = []\<rparr>]\<rparr>"

definition domain_items :: "item list" where
  \<comment> \<open>\<open>[a-zA-Z0-9-]+\.comput3\.ai\<close>\<close>
  "domain_items = [Plus alnum_hyphen] @ lits ''.comput3.ai''"

definition comput3DomainPattern :: regex where
  "comput3DomainPattern =
    \<lparr>source = ''/([a-zA-Z0-9-]+'' @ [bs] @ ''.comput3'' @ [bs] @ ''.ai)/i'',
     branches = [\<lparr>before = [], group1 = domain_items, after = []\<rparr>]\<rparr>"

definition wrk_pattern :: regex where
  \<comment> \<open>\<open>/wrk_([a-zA-Z0-9]+)/i\<close>\<close>
  "wrk_pattern =
    \<lparr>source = ''/wrk_([a-zA-Z0-9]+)/i'',
     branches = [\<lparr>before = lits ''wrk_'', group1 = [Plus alnum], after = []\<rparr>]\<rparr>"

definition workload_pattern :: regex where
  \<comment> \<open>\<open>/workload[:\s]+([a-zA-Z0-9-_]+)/i\<close>\<close>
  "workload_pattern =
    \<lparr>source = ''/workload[:'' @ [bs] @ ''s]+([a-zA-Z0-9-_]+)/i'',
     branches = [\<lparr>before = lits ''workload'' @ [Plus colon_or_space],
                  group1 = [Plus alnum_hyphen_underscore], after = []\<rparr>]\<rparr>"

definition four_words_pattern :: regex where
  \<comment> \<open>\<open>/([a-zA-Z]+-[a-zA-Z]+-[a-zA-Z]+-[a-zA-Z]+)/i\<close>\<close>
  "four_words_pattern =
    \<lparr>source = ''/([a-zA-Z]+-[a-zA-Z]+-[a-zA-Z]+-[a-zA-Z]+)/i'',
     branches = [\<lparr>before = [],
                  group1 = [Plus alpha, Lit CHR ''-'', Plus alpha, Lit CHR ''-'', Plus alpha,
                            Lit CHR ''-'', Plus alpha],
                  after = []\<rparr>]\<rparr>"

definition workloadPatterns :: "regex list" where
  "workloadPatterns = [wrk_pattern, workload_pattern, four_words_pattern]"

fun workload_loop :: "regex list \<Rightarrow> string \<Rightarrow> string option" where
  "workload_loop [] text = None"
| "workload_loop (pattern # patterns) text =
     (case str_match pattern text of
        None \<Rightarrow> workload_loop patterns text
      | Some m \<Rightarrow>
          if captured m = [] then workload_loop patterns text
          else Some (if str_includes (source pattern) ''wrk_'' then ''wrk_'' @ captured m else captured m))"

text \<open>Lines 222 to 245: the domain pattern, then the loop over the looser patterns.\<close>

definition domain_or_looser :: "string \<Rightarrow> string option" where
  "domain_or_looser text =
     (case str_match comput3DomainPattern text of
        None \<Rightarrow> workload_loop workloadPatterns text
      | Some domainMatch \<Rightarrow>
          if captured domainMatch = [] then workload_loop workloadPatterns text
          else Some (captured domainMatch))"

definition extractWorkloadId :: "string \<Rightarrow> string option" where
  "extractWorkloadId text =
     (if text = [] then None
      else case str_match uuidPattern text of
        None \<Rightarrow> domain_or_looser text
      | Some uuidMatch \<Rightarrow>
          if captured uuidMatch = [] then domain_or_looser text
          else Some (captured uuidMatch))"

text \<open>\<open>validateLaunchWorkloadFromText\<close> and \<open>validateStopWorkloadFromText\<close>.\<close>

definition validateLaunchWorkloadFromText :: "string \<Rightarrow> (string \<times> int) option" where
  "validateLaunchWorkloadFromText text =
     (case extractWorkloadType text of
        None \<Rightarrow> None
      | Some type \<Rightarrow>
          if type = [] then None else Some (type, extractExpirationTime text 10))"

definition validateStopWorkloadFromText :: "string \<Rightarrow> string option" where
  "validateStopWorkloadFromText text =
     (case extractWorkloadId text of
        None \<Rightarrow> None
      | Some workload \<Rightarrow> if workload = [] then None else Some workload)"

section \<open>JavaScript values and the intent validators\<close>

text \<open>
  Numbers are real numbers: \<open>NaN\<close>, the infinities and the rounding of doubles are not
  represented. An object is an association list of its own properties.
\<close>

datatype jsval =
    JUndefined
  | JNull
  | JBool bool
  | JNum real
  | JStr string
  | JObj "(string \<times> jsval) list"

type_synonym jsobj = "(string \<times> jsval) list"

definition get :: "jsobj \<Rightarrow> string \<Rightarrow> jsval" where
  \<comment> \<open>\<open>obj.key\<close>\<close>
  "get obj key = (case map_of obj key of None \<Rightarrow> JUndefined | Some v \<Rightarrow> v)"

definition has :: "jsobj \<Rightarrow> string \<Rightarrow> bool" where
  \<comment> \<open>\<open>'key' in obj\<close>\<close>
  "has obj key = (map_of obj key \<noteq> None)"

definition put :: "jsobj \<Rightarrow> string \<Rightarrow> jsval \<Rightarrow> jsobj" where
  \<comment> \<open>\<open>obj.key = v\<close>\<close>
  "put obj key v = (key, v) # filter (\<lambda>(k, _). k \<noteq> key) obj"

fun truthy :: "jsval \<Rightarrow> bool" where
  "truthy JUndefined = False"
| "truthy JNull = False"
| "truthy (JBool b) = b"
| "truthy (JNum n) = (n \<noteq> 0)"
| "truthy (JStr s) = (s \<noteq> [])"
| "truthy (JObj obj) = True"

fun typeof :: "jsval \<Rightarrow> string" where
  "typeof JUndefined = ''undefined''"
| "typeof JNull = ''object''"
| "typeof (JBool b) = ''boolean''"
| "typeof (JNum n) = ''number''"
| "typeof (JStr s) = ''string''"
| "typeof (JObj obj) = ''object''"

fun string_of :: "jsval \<Rightarrow> string" where
  \<comment> \<open>the characters of a value already known to be a string\<close>
  "string_of (JStr s) = s"
| "string_of _ = []"

definition js_or :: "jsval \<Rightarrow> jsval \<Rightarrow> jsval" where
  \<comment> \<open>\<open>a || b\<close>\<close>
  "js_or a b = (if truthy a then a else b)"

definition isLaunchWorkloadContent :: "jsobj \<Rightarrow> bool" where
  "isLaunchWorkloadContent content =
     (if \<not> truthy (get content ''type'') \<or> typeof (get content ''type'') \<noteq> ''string'' then False
      else if get content ''expires'' \<noteq> JUndefined \<and> typeof (get content ''expires'') \<noteq> ''number''
      then False
      else True)"

definition isStopWorkloadContent :: "jsobj \<Rightarrow> bool" where
  "isStopWorkloadContent content =
     (if \<not> truthy (get content ''workload'') \<or> typeof (get content ''workload'') \<noteq> ''string''
      then False
      else True)"

section \<open>The collaborators\<close>

datatype exn =
    Error string   \<comment> \<open>an \<open>Error\<close> with its message\<close>
  | Thrown         \<comment> \<open>any other thrown value\<close>

record api_response =
  success :: bool
  data :: jsval
  error :: "string option"
  statusCode :: "nat option"

datatype http_request =
    GET string
  | POST string jsval

datatype template = ENHANCED_LAUNCH_WORKLOAD_TEMPLATE | ENHANCED_STOP_WORKLOAD_TEMPLATE

text \<open>
  What the handlers consume from outside: the runtime's settings and the process
  environment, prompt composition, the model, the JSON parser, the HTTP transport together
  with the client's error wrapping (it answers with an \<open>ApiResponse\<close>, also for a failed
  request, and throws only if the wrapping itself fails), the clock, and the formatting of
  the display texts of successful answers.
\<close>

record host =
  getSetting :: "string \<Rightarrow> jsval"
  env :: "string \<Rightarrow> string option"
  composePrompt :: "template \<Rightarrow> string \<Rightarrow> string"
  useModel :: "string \<Rightarrow> exn + string"
  parseJSONObjectFromText :: "string \<Rightarrow> jsobj option"
  transport :: "http_request \<Rightarrow> exn + api_response"
  now :: int
  formatLaunchResponse :: "jsval \<Rightarrow> jsval \<Rightarrow> real \<Rightarrow> string"
  formatWorkloadsList :: "jsval \<Rightarrow> bool \<Rightarrow> exn + string"
  formatWorkloadTypes :: "jsval \<Rightarrow> exn + string"
  formatUserBalance :: "jsval \<Rightarrow> exn + string"
  formatUserProfile :: "jsval \<Rightarrow> exn + string"

text \<open>What a handler does to the outside, in the order it does it.\<close>

datatype event =
    ModelCall string          \<comment> \<open>\<open>runtime.useModel\<close> with the prompt\<close>
  | DirectExtraction string   \<comment> \<open>the deterministic extractors run on the text\<close>
  | Http http_request         \<comment> \<open>a request handed to the HTTP transport\<close>
  | Callback string jsobj     \<comment> \<open>\<open>callback({text, content})\<close>\<close>

record chat_message =
  role :: "string option"
  content :: jsval

type_synonym chat_state = "chat_message list option"

record memory =
  message_content :: "jsobj option"

subsection \<open>The API client\<close>

definition MISSING_API_KEY :: string where
  "MISSING_API_KEY = ''Comput3AI API key is required but not provided''"

definition INVALID_WORKLOAD_ID :: string where
  "INVALID_WORKLOAD_ID = ''Invalid workload ID provided''"

definition INVALID_WORKLOAD_TYPE :: string where
  "INVALID_WORKLOAD_TYPE = ''Invalid workload type provided''"

definition env_value :: "host \<Rightarrow> string \<Rightarrow> jsval" where
  \<comment> \<open>\<open>process.env.NAME\<close>\<close>
  "env_value h name = (case env h name of None \<Rightarrow> JUndefined | Some v \<Rightarrow> JStr v)"

record api_client =
  baseURL :: string
  apiKey :: jsval

definition fromRuntime :: "host \<Rightarrow> exn + api_client" where
  "fromRuntime h =
     (let apiKey = js_or (js_or (getSetting h ''COMPUT3AI_API_KEY'') (env_value h ''COMPUT3AI_API_KEY''))
                         (JStr [])
      in if \<not> truthy apiKey then Inl (Error MISSING_API_KEY)
         else Inr \<lparr>baseURL = ''https://api.comput3.ai/api/v0'', apiKey = apiKey\<rparr>)"

definition createComput3ApiClient :: "host \<Rightarrow> exn + api_client" where
  "createComput3ApiClient h = fromRuntime h"

text \<open>
  Every client method is one round trip; it returns the answer (or what was thrown) and
  the request it made.
\<close>

type_synonym round_trip = "(exn + api_response) \<times> event list"

definition client_get :: "host \<Rightarrow> api_client \<Rightarrow> string \<Rightarrow> round_trip" where
  "client_get h c endpoint = (transport h (GET endpoint), [Http (GET endpoint)])"

definition client_post :: "host \<Rightarrow> api_client \<Rightarrow> string \<Rightarrow> jsval \<Rightarrow> round_trip" where
  "client_post h c endpoint body = (transport h (POST endpoint body), [Http (POST endpoint body)])"

definition launchWorkload :: "host \<Rightarrow> api_client \<Rightarrow> jsval \<Rightarrow> round_trip" where
  "launchWorkload h c request = client_post h c ''/launch'' request"

definition stopWorkload :: "host \<Rightarrow> api_client \<Rightarrow> jsval \<Rightarrow> round_trip" where
  "stopWorkload h c request = client_post h c ''/stop'' request"

definition listWorkloads :: "host \<Rightarrow> api_client \<Rightarrow> jsval \<Rightarrow> round_trip" where
  \<comment> \<open>\<open>request\<close> is \<open>JUndefined\<close> when the argument is left out\<close>
  "listWorkloads h c request =
     client_post h c ''/workloads'' (js_or request (JObj [(''running'', JBool True)]))"

definition getWorkloadTypes :: "host \<Rightarrow> api_client \<Rightarrow> round_trip" where
  "getWorkloadTypes h c = client_get h c ''/types''"

definition getUserBalance :: "host \<Rightarrow> api_client \<Rightarrow> round_trip" where
  "getUserBalance h c = client_get h c ''/balance''"

definition getUserProfile :: "host \<Rightarrow> api_client \<Rightarrow> round_trip" where
  "getUserProfile h c = client_get h c ''/profile''"

section \<open>The action handlers\<close>

subsection \<open>Shared pieces\<close>

definition has_api_key :: "host \<Rightarrow> bool" where
  \<comment> \<open>the body of every action's \<open>validate\<close>\<close>
  "has_api_key h =
     truthy (js_or (getSetting h ''COMPUT3AI_API_KEY'') (env_value h ''COMPUT3AI_API_KEY''))"

definition error_or :: "string option \<Rightarrow> string \<Rightarrow> string" where
  \<comment> \<open>\<open>response.error || fallback\<close>\<close>
  "error_or e fallback = (case e of None \<Rightarrow> fallback | Some m \<Rightarrow> if m = [] then fallback else m)"

definition status_value :: "nat option \<Rightarrow> jsval" where
  "status_value st = (case st of None \<Rightarrow> JUndefined | Some n \<Rightarrow> JNum (real n))"

definition catch_message :: "exn \<Rightarrow> string" where
  \<comment> \<open>\<open>error instanceof Error ? error.message : "Unknown error occurred"\<close>\<close>
  "catch_message e = (case e of Error m \<Rightarrow> m | Thrown \<Rightarrow> ''Unknown error occurred'')"

definition null_property_error :: "string \<Rightarrow> exn" where
  \<comment> \<open>the \<open>TypeError\<close> of reading a property of \<open>null\<close>\<close>
  "null_property_error key = Error (''Cannot read properties of null (reading ''
       @ [CHR 0x27] @ key @ [CHR 0x27] @ '')'')"

definition role_or_user :: "chat_message \<Rightarrow> string" where
  "role_or_user msg = (case role msg of None \<Rightarrow> ''user'' | Some r \<Rightarrow> if r = [] then ''user'' else r)"

definition format_message :: "chat_message \<Rightarrow> string" where
  "format_message msg =
     (case content msg of
        JStr s \<Rightarrow> role_or_user msg @ '': '' @ s
      | JObj obj \<Rightarrow> (case get obj ''text'' of JStr t \<Rightarrow> role_or_user msg @ '': '' @ t | _ \<Rightarrow> [])
      | _ \<Rightarrow> [])"

fun join :: "string \<Rightarrow> string list \<Rightarrow> string" where
  "join sep [] = []"
| "join sep [x] = x"
| "join sep (x # y # ys) = x @ sep @ join sep (y # ys)"

definition formatRecentMessages :: "chat_state \<Rightarrow> string" where
  "formatRecentMessages state =
     (let messages = (case state of None \<Rightarrow> [] | Some ms \<Rightarrow> ms)
      in join [CHR 0x0A, CHR 0x0A] (map format_message (drop (length messages - 3) messages)))"

definition bad_gateway_text :: string where
  "bad_gateway_text = ''Server error (502 Bad Gateway). The Comput3AI service is currently experiencing issues. Please try again later or contact Comput3AI support if the problem persists.''"

definition id_examples :: string where
  "id_examples = ''(either UUID format like '' @ [CHR 0x22] @ ''7b69314d-c88d-47d9-920c-ae827f6b7844''
     @ [CHR 0x22] @ '' or domain format like '' @ [CHR 0x22] @ ''name-name-name-gpu.comput3.ai''
     @ [CHR 0x22] @ '').''"

subsection \<open>Launch\<close>

definition launch_validate :: "host \<Rightarrow> bool" where
  "launch_validate h = has_api_key h"

definition launch_candidate :: "string \<times> int \<Rightarrow> jsobj" where
  \<comment> \<open>the object \<open>{ type, expires }\<close> that \<open>validateLaunchWorkloadFromText\<close> returns\<close>
  "launch_candidate p = [(''type'', JStr (fst p)), (''expires'', JNum (real_of_int (snd p)))]"

text \<open>
  Lines 137 to 164: the candidate comes from the structured content, or from the model
  and, when that one does not validate, from the text.
\<close>

definition message_text :: "memory \<Rightarrow> jsval" where
  \<comment> \<open>\<open>message.content.text\<close>, \<open>undefined\<close> without a content\<close>
  "message_text message = (case message_content message of None \<Rightarrow> JUndefined | Some c \<Rightarrow> get c ''text'')"

definition launch_prompt :: "host \<Rightarrow> chat_state \<Rightarrow> string" where
  \<comment> \<open>lines 142 to 145\<close>
  "launch_prompt h state =
     composePrompt h ENHANCED_LAUNCH_WORKLOAD_TEMPLATE (formatRecentMessages state)"

definition launch_from_model :: "host \<Rightarrow> memory \<Rightarrow> chat_state \<Rightarrow> (exn + jsobj) \<times> event list" where
  "launch_from_model h message state =
     (let prompt = launch_prompt h state
      in case useModel h prompt of
           Inl e \<Rightarrow> (Inl e, [ModelCall prompt])
         | Inr result \<Rightarrow>
             (case parseJSONObjectFromText h result of
                None \<Rightarrow> (Inl (null_property_error ''type''), [ModelCall prompt])
              | Some launchParams \<Rightarrow>
                  if \<not> isLaunchWorkloadContent launchParams then
                    (case message_text message of
                       JStr text \<Rightarrow>
                         (case validateLaunchWorkloadFromText text of
                            Some extractedParams \<Rightarrow>
                              (Inr (launch_candidate extractedParams),
                               [ModelCall prompt, DirectExtraction text])
                          | None \<Rightarrow> (Inr launchParams, [ModelCall prompt, DirectExtraction text]))
                     | _ \<Rightarrow> (Inr launchParams, [ModelCall prompt]))
                  else (Inr launchParams, [ModelCall prompt])))"

definition launch_extract :: "host \<Rightarrow> memory \<Rightarrow> chat_state \<Rightarrow> (exn + jsobj) \<times> event list" where
  "launch_extract h message state =
     (case message_content message of
        None \<Rightarrow> launch_from_model h message state
      | Some c \<Rightarrow> if has c ''type'' then (Inr c, []) else launch_from_model h message state)"

definition expires_minutes :: "jsobj \<Rightarrow> real" where
  \<comment> \<open>\<open>launchParams.expires\<close> after the default has been filled in: a number, by the validator\<close>
  "expires_minutes launchParams =
     (case get launchParams ''expires'' of JNum n \<Rightarrow> n | _ \<Rightarrow> 10)"

definition launch_request :: "host \<Rightarrow> jsobj \<Rightarrow> jsval" where
  \<comment> \<open>lines 188 to 191\<close>
  "launch_request h launchParams =
     JObj [(''type'', get launchParams ''type''),
           (''expires'', JNum (real_of_int \<lfloor>real_of_int (now h) / 1000\<rfloor>
                                + expires_minutes launchParams * 60))]"

definition launch_try :: "host \<Rightarrow> memory \<Rightarrow> chat_state \<Rightarrow> (exn + bool) \<times> event list" where
  "launch_try h message state =
     (case createComput3ApiClient h of
        Inl e \<Rightarrow> (Inl e, [])
      | Inr apiClient \<Rightarrow>
          (case launch_extract h message state of
             (Inl e, tr) \<Rightarrow> (Inl e, tr)
           | (Inr params, tr) \<Rightarrow>
               if \<not> isLaunchWorkloadContent params then
                 (Inr False, tr @
                    [Callback (''Failed to launch workload: '' @ INVALID_WORKLOAD_TYPE
                                 @ ''. Please specify a valid workload type.'')
                       [(''success'', JBool False), (''error'', JStr INVALID_WORKLOAD_TYPE)]])
               else
                 (let launchParams =
                        (if get params ''expires'' = JUndefined then put params ''expires'' (JNum 10)
                         else params);
                      request = launch_request h launchParams
                  in case launchWorkload h apiClient request of
                       (Inl e, tr2) \<Rightarrow> (Inl e, tr @ tr2)
                     | (Inr response, tr2) \<Rightarrow>
                         if \<not> success response \<or> \<not> truthy (data response) then
                           (let errorMessage = error_or (error response) ''Failed to launch workload'';
                                userMessage =
                                  (if statusCode response = Some 502
                                   then ''Failed to launch workload: '' @ bad_gateway_text
                                   else ''Failed to launch workload: '' @ errorMessage)
                            in (Inr False, tr @ tr2 @
                                 [Callback userMessage
                                    [(''success'', JBool False), (''error'', JStr errorMessage),
                                     (''statusCode'', status_value (statusCode response))]]))
                         else
                           (Inr True, tr @ tr2 @
                              [Callback (formatLaunchResponse h (data response) request
                                           (expires_minutes launchParams))
                                 [(''success'', JBool True), (''data'', data response),
                                  (''request'', request)]]))))"

definition launch_handler :: "host \<Rightarrow> memory \<Rightarrow> chat_state \<Rightarrow> bool \<times> event list" where
  "launch_handler h message state =
     (case launch_try h message state of
        (Inr r, tr) \<Rightarrow> (r, tr)
      | (Inl e, tr) \<Rightarrow>
          (let errorMessage = catch_message e;
               userMessage =
                 (if str_includes errorMessage ''502'' \<or> str_includes errorMessage ''Bad Gateway''
                  then ''Failed to launch workload: '' @ bad_gateway_text
                  else ''Failed to launch workload: '' @ errorMessage)
           in (False, tr @ [Callback userMessage
                              [(''success'', JBool False), (''error'', JStr errorMessage)]])))"

subsection \<open>Stop\<close>

definition stop_validate :: "host \<Rightarrow> bool" where
  "stop_validate h = has_api_key h"

definition stop_prompt :: "host \<Rightarrow> chat_state \<Rightarrow> string" where
  \<comment> \<open>lines 514 to 517\<close>
  "stop_prompt h state =
     composePrompt h ENHANCED_STOP_WORKLOAD_TEMPLATE (formatRecentMessages state)"

definition stop_from_model :: "host \<Rightarrow> chat_state \<Rightarrow> (exn + jsobj option) \<times> event list" where
  \<comment> \<open>lines 514 to 539; \<open>Inr None\<close> when the handler has answered and returned \<open>false\<close>\<close>
  "stop_from_model h state =
     (let prompt = stop_prompt h state
      in case useModel h prompt of
           Inl e \<Rightarrow> (Inl e, [ModelCall prompt])
         | Inr result \<Rightarrow>
             (case parseJSONObjectFromText h result of
                None \<Rightarrow> (Inl (null_property_error ''workload''), [ModelCall prompt])
              | Some stopParams \<Rightarrow>
                  if \<not> isStopWorkloadContent stopParams then
                    (Inr None,
                     [ModelCall prompt,
                      Callback (''Failed to identify a workload ID to stop. Please provide a specific workload ID like ''
                                  @ [CHR 0x27] @ ''7b69314d-c88d-47d9-920c-ae827f6b7844'' @ [CHR 0x27]
                                  @ '' or '' @ [CHR 0x27] @ ''name-name-name-gpu.comput3.ai''
                                  @ [CHR 0x27] @ ''.'')
                        [(''success'', JBool False), (''error'', JStr ''Could not extract workload ID'')]])
                  else (Inr (Some stopParams), [ModelCall prompt])))"

definition stop_extract :: "host \<Rightarrow> memory \<Rightarrow> chat_state \<Rightarrow> (exn + jsobj option) \<times> event list" where
  \<comment> \<open>lines 495 to 555\<close>
  "stop_extract h message state =
     (case message_content message of
        None \<Rightarrow>
          (Inr None,
           [Callback (''Failed to stop workload: No valid message content to extract workload ID from. Please specify a valid workload ID ''
                        @ id_examples)
              [(''success'', JBool False),
               (''error'', JStr ''No valid message content to extract workload ID from'')]])
      | Some c \<Rightarrow>
          if has c ''workload'' \<and> typeof (get c ''workload'') = ''string''
          then (Inr (Some (put c ''workload'' (get c ''workload''))), [])
          else if has c ''text'' \<and> typeof (get c ''text'') = ''string'' then
            (let text = string_of (get c ''text'')
             in case validateStopWorkloadFromText text of
                  Some workload \<Rightarrow> (Inr (Some [(''workload'', JStr workload)]), [DirectExtraction text])
                | None \<Rightarrow>
                    (case stop_from_model h state of
                       (r, tr) \<Rightarrow> (r, DirectExtraction text # tr)))
          else
            (Inr None,
             [Callback (''Failed to stop workload: No valid message content to extract workload ID from. Please specify a valid workload ID ''
                          @ id_examples)
                [(''success'', JBool False),
                 (''error'', JStr ''No valid message content to extract workload ID from'')]]))"

definition workload_text :: "jsobj \<Rightarrow> string" where
  \<comment> \<open>\<open>stopParams.workload\<close> once validated: a string\<close>
  "workload_text stopParams = string_of (get stopParams ''workload'')"

definition formatStopResponse :: "jsval \<Rightarrow> jsobj \<Rightarrow> string" where
  "formatStopResponse response request =
     join [CHR 0x0A] [''Successfully stopped workload!'', [],
                      ''Workload ID: '' @ workload_text request, ''Status: Stopped'']"

definition stop_try :: "host \<Rightarrow> memory \<Rightarrow> chat_state \<Rightarrow> (exn + bool) \<times> event list" where
  "stop_try h message state =
     (case createComput3ApiClient h of
        Inl e \<Rightarrow> (Inl e, [])
      | Inr apiClient \<Rightarrow>
          (case stop_extract h message state of
             (Inl e, tr) \<Rightarrow> (Inl e, tr)
           | (Inr None, tr) \<Rightarrow> (Inr False, tr)
           | (Inr (Some stopParams), tr) \<Rightarrow>
               if \<not> isStopWorkloadContent stopParams then
                 (Inr False, tr @
                    [Callback (''Failed to stop workload: '' @ INVALID_WORKLOAD_ID
                                 @ ''. Please specify a valid workload ID '' @ id_examples)
                       [(''success'', JBool False), (''error'', JStr INVALID_WORKLOAD_ID)]])
               else
                 (let workload = workload_text stopParams;
                      request = [(''workload'', get stopParams ''workload'')];
                      processing =
                        Callback (''Stopping your workload with ID '' @ [CHR 0x27] @ workload
                                    @ [CHR 0x27] @ '' now...'')
                          [(''processing'', JBool True), (''workload'', get stopParams ''workload'')]
                  in case stopWorkload h apiClient (JObj request) of
                       (Inl e, tr2) \<Rightarrow> (Inl e, tr @ [processing] @ tr2)
                     | (Inr response, tr2) \<Rightarrow>
                         if \<not> success response \<or> \<not> truthy (data response) then
                           (let errorMessage = error_or (error response) ''Failed to stop workload'';
                                userMessage =
                                  (if statusCode response = Some 502
                                   then ''Failed to stop workload '' @ workload @ '': ''
                                          @ bad_gateway_text
                                   else ''Failed to stop workload '' @ workload @ '': ''
                                          @ errorMessage)
                            in (Inr False, tr @ [processing] @ tr2 @
                                 [Callback userMessage
                                    [(''success'', JBool False), (''error'', JStr errorMessage),
                                     (''statusCode'', status_value (statusCode response)),
                                     (''workload'', get stopParams ''workload'')]]))
                         else
                           (Inr True, tr @ [processing] @ tr2 @
                              [Callback (formatStopResponse (data response) request)
                                 [(''success'', JBool True), (''data'', data response),
                                  (''request'', JObj request),
                                  (''workload'', get stopParams ''workload'')]]))))"

definition stop_handler :: "host \<Rightarrow> memory \<Rightarrow> chat_state \<Rightarrow> bool \<times> event list" where
  "stop_handler h message state =
     (case stop_try h message state of
        (Inr r, tr) \<Rightarrow> (r, tr)
      | (Inl e, tr) \<Rightarrow>
          (let errorMessage = catch_message e;
               userMessage =
                 (if str_includes errorMessage ''502'' \<or> str_includes errorMessage ''Bad Gateway''
                  then ''Failed to stop workload: '' @ bad_gateway_text
                  else ''Failed to stop workload: '' @ errorMessage)
           in (False, tr @ [Callback userMessage
                              [(''success'', JBool False), (''error'', JStr errorMessage)]])))"

subsection \<open>List\<close>

definition lower_char :: "char \<Rightarrow> char" where
  \<comment> \<open>lower case within Latin-1: the ASCII capitals, and \<open>0xC0\<close> to \<open>0xDE\<close> but \<open>0xD7\<close>\<close>
  "lower_char c =
     (case map_of (zip upper_alpha lower_alpha) c of
        Some l \<Rightarrow> l
      | None \<Rightarrow>
          (let n = (of_char c :: nat)
           in if 192 \<le> n \<and> n \<le> 222 \<and> n \<noteq> 215 then char_of (n + 32) else c))"

definition toLowerCase :: "string \<Rightarrow> string" where
  "toLowerCase s = map lower_char s"

definition list_validate :: "host \<Rightarrow> bool" where
  "list_validate h = has_api_key h"

definition list_try :: "host \<Rightarrow> memory \<Rightarrow> (exn + bool) \<times> event list" where
  "list_try h message =
     (case createComput3ApiClient h of
        Inl e \<Rightarrow> (Inl e, [])
      | Inr apiClient \<Rightarrow>
          (case js_or (message_text message) (JStr []) of
             JStr messageText \<Rightarrow>
               (let showOnlyRunning = str_includes (toLowerCase messageText) ''running'';
                    requestOptions =
                      JObj [(''running'', js_or (JBool showOnlyRunning) JUndefined)]
                in case listWorkloads h apiClient requestOptions of
                     (Inl e, tr) \<Rightarrow> (Inl e, tr)
                   | (Inr response, tr) \<Rightarrow>
                       if \<not> success response \<or> \<not> truthy (data response) then
                         (let errorMessage = error_or (error response) ''Failed to retrieve workloads''
                          in (Inr False, tr @
                                [Callback (''Failed to retrieve workloads: '' @ errorMessage)
                                   [(''success'', JBool False), (''error'', JStr errorMessage)]]))
                       else
                         (case formatWorkloadsList h (data response) showOnlyRunning of
                            Inl e \<Rightarrow> (Inl e, tr)
                          | Inr formattedWorkloads \<Rightarrow>
                              (Inr True, tr @
                                 [Callback formattedWorkloads
                                    [(''success'', JBool True), (''data'', data response)]])))
           | _ \<Rightarrow> (Inl (Error ''messageText.toLowerCase is not a function''), [])))"

definition list_handler :: "host \<Rightarrow> memory \<Rightarrow> bool \<times> event list" where
  "list_handler h message =
     (case list_try h message of
        (Inr r, tr) \<Rightarrow> (r, tr)
      | (Inl e, tr) \<Rightarrow>
          (let errorMessage = catch_message e
           in (False, tr @ [Callback (''Failed to retrieve workloads: '' @ errorMessage)
                              [(''success'', JBool False), (''error'', JStr errorMessage)]])))"

subsection \<open>Workload types, balance, profile\<close>

text \<open>
  The three remaining handlers are one text with three wordings: a \<open>GET\<close>, the check of
  the answer, the formatted reply, and the same \<open>catch\<close>.
\<close>

definition fetch_try ::
  "host \<Rightarrow> (host \<Rightarrow> api_client \<Rightarrow> round_trip) \<Rightarrow> (jsval \<Rightarrow> exn + string)
     \<Rightarrow> string \<Rightarrow> (exn + bool) \<times> event list" where
  "fetch_try h call format what =
     (case createComput3ApiClient h of
        Inl e \<Rightarrow> (Inl e, [])
      | Inr apiClient \<Rightarrow>
          (case call h apiClient of
             (Inl e, tr) \<Rightarrow> (Inl e, tr)
           | (Inr response, tr) \<Rightarrow>
               if \<not> success response \<or> \<not> truthy (data response) then
                 (let errorMessage = error_or (error response) (''Failed to retrieve '' @ what)
                  in (Inr False, tr @
                        [Callback (''Failed to retrieve '' @ what @ '': '' @ errorMessage)
                           [(''success'', JBool False), (''error'', JStr errorMessage)]]))
               else
                 (case format (data response) of
                    Inl e \<Rightarrow> (Inl e, tr)
                  | Inr formatted \<Rightarrow>
                      (Inr True, tr @
                         [Callback formatted
                            [(''success'', JBool True), (''data'', data response)]]))))"

definition fetch_handler ::
  "host \<Rightarrow> (host \<Rightarrow> api_client \<Rightarrow> round_trip) \<Rightarrow> (jsval \<Rightarrow> exn + string)
     \<Rightarrow> string \<Rightarrow> bool \<times> event list" where
  "fetch_handler h call format what =
     (case fetch_try h call format what of
        (Inr r, tr) \<Rightarrow> (r, tr)
      | (Inl e, tr) \<Rightarrow>
          (let errorMessage = catch_message e
           in (False, tr @ [Callback (''Failed to retrieve '' @ what @ '': '' @ errorMessage)
                              [(''success'', JBool False), (''error'', JStr errorMessage)]])))"

definition types_validate :: "host \<Rightarrow> bool" where
  "types_validate h = has_api_key h"

definition types_handler :: "host \<Rightarrow> bool \<times> event list" where
  "types_handler h =
     fetch_handler h getWorkloadTypes
       (\<lambda>d. case formatWorkloadTypes h d of
               Inl e \<Rightarrow> Inl e
             | Inr formattedTypes \<Rightarrow> Inr (''Available workload types: '' @ formattedTypes))
       ''workload types''"

definition balance_validate :: "host \<Rightarrow> bool" where
  "balance_validate h = has_api_key h"

definition balance_handler :: "host \<Rightarrow> bool \<times> event list" where
  "balance_handler h = fetch_handler h getUserBalance (formatUserBalance h) ''user balance''"

definition profile_validate :: "host \<Rightarrow> bool" where
  "profile_validate h = has_api_key h"

definition profile_handler :: "host \<Rightarrow> bool \<times> event list" where
  "profile_handler h = fetch_handler h getUserProfile (formatUserProfile h) ''user profile''"

section \<open>Reading a trace\<close>

fun callback_contents :: "event list \<Rightarrow> jsobj list" where
  "callback_contents [] = []"
| "callback_contents (Callback text c # tr) = c # callback_contents tr"
| "callback_contents (_ # tr) = callback_contents tr"

fun http_requests :: "event list \<Rightarrow> http_request list" where
  "http_requests [] = []"
| "http_requests (Http r # tr) = r # http_requests tr"
| "http_requests (_ # tr) = http_requests tr"

fun extraction_events :: "event list \<Rightarrow> event list" where
  "extraction_events [] = []"
| "extraction_events (ModelCall p # tr) = ModelCall p # extraction_events tr"
| "extraction_events (DirectExtraction t # tr) = DirectExtraction t # extraction_events tr"
| "extraction_events (_ # tr) = extraction_events tr"

fun model_calls :: "event list \<Rightarrow> string list" where
  "model_calls [] = []"
| "model_calls (ModelCall p # tr) = p # model_calls tr"
| "model_calls (_ # tr) = model_calls tr"

fun direct_extractions :: "event list \<Rightarrow> string list" where
  "direct_extractions [] = []"
| "direct_extractions (DirectExtraction t # tr) = t # direct_extractions tr"
| "direct_extractions (_ # tr) = direct_extractions tr"

definition reports :: "jsobj \<Rightarrow> bool \<Rightarrow> bool" where
  \<comment> \<open>the content of a callback carries \<open>success\<close> with this value\<close>
  "reports c r \<longleftrightarrow> has c ''success'' \<and> get c ''success'' = JBool r"

section \<open>The type extractor as the specification words it\<close>





section \<open>Numbers as text\<close>

text \<open>
  \<open>String(n)\<close> for an integer \<open>n\<close>: its decimal digits, with a minus sign when it is
  negative. (JavaScript prints so below \<open>10^21\<close>.)
\<close>

fun decimal :: "nat \<Rightarrow> string" where
  "decimal n = (if n < 10 then [digits ! n] else decimal (n div 10) @ [digits ! (n mod 10)])"

declare decimal.simps [simp del]

definition number_to_string :: "int \<Rightarrow> string" where
  "number_to_string i = (if i < 0 then CHR ''-'' # decimal (nat (- i)) else decimal (nat i))"

section \<open>Items that match in one way only\<close>

fun rigid :: "item \<Rightarrow> bool" where
  "rigid (Lit w) = True"
| "rigid (Rep n C) = True"
| "rigid _ = False"

fun accepts :: "item \<Rightarrow> char \<Rightarrow> bool" where
  \<comment> \<open>the characters a rigid item can consume\<close>
  "accepts (Lit w) c = (canonicalize c = canonicalize w)"
| "accepts (Rep n C) c = C c"
| "accepts _ c = True"

section \<open>A host and some messages to run the handlers on\<close>

text \<open>
  A host with an API key, whose model answers \<open>{}\<close> (an object that no validator
  accepts), and whose remote service accepts every request.
\<close>

definition example_host :: host where
  "example_host =
     \<lparr>getSetting = (\<lambda>name. if name = ''COMPUT3AI_API_KEY'' then JStr ''c3_key'' else JUndefined),
      env = (\<lambda>name. None),
      composePrompt = (\<lambda>t recent. recent),
      useModel = (\<lambda>prompt. Inr ''{}''),
      parseJSONObjectFromText = (\<lambda>s. if s = ''{}'' then Some [] else None),
      transport = (\<lambda>r. Inr \<lparr>success = True, data = JObj [(''workload'', JStr ''w1'')],
                             error = None, statusCode = Some 200\<rparr>),
      now = 1700000000123,
      formatLaunchResponse = (\<lambda>response request minutes. ''launched''),
      formatWorkloadsList = (\<lambda>workloads running. Inr ''workloads''),
      formatWorkloadTypes = (\<lambda>types. Inr ''types''),
      formatUserBalance = (\<lambda>balance. Inr ''balance''),
      formatUserProfile = (\<lambda>profile. Inr ''profile'')\<rparr>"

text \<open>The same host without an API key, in the settings or in the environment.\<close>

definition keyless_host :: host where
  "keyless_host = example_host\<lparr>getSetting := (\<lambda>name. JUndefined)\<rparr>"

definition text_message :: "string \<Rightarrow> memory" where
  "text_message t = \<lparr>message_content = Some [(''text'', JStr t)]\<rparr>"

section \<open>Facts about the matcher\<close>

text \<open>
  Canonicalisation on the bits of a character: a lower-case ASCII letter (\<open>0x61\<close> to
  \<open>0x7A\<close>) loses bit 5, every other character stays.
\<close>

lemma canonicalize_bits [code, simp]:
  "canonicalize (Char b0 b1 b2 b3 b4 b5 b6 b7) =
     (if \<not> b7 \<and> b6 \<and> b5 \<and> (b0 \<or> b1 \<or> b2 \<or> b3 \<or> b4) \<and> \<not> (b4 \<and> b3 \<and> (b2 \<or> (b1 \<and> b0)))
      then Char b0 b1 b2 b3 b4 False b6 b7
      else Char b0 b1 b2 b3 b4 b5 b6 b7)"
proof (cases "\<not> b7 \<and> b6 \<and> b5")
  case False
  then show ?thesis
    by (cases b7; cases b6; cases b5;
        simp add: canonicalize_def lower_alpha_def upper_alpha_def)
next
  case True
  then show ?thesis
    by (cases b0; cases b1; cases b2; cases b3; cases b4;
        simp add: canonicalize_def lower_alpha_def upper_alpha_def)
qed

lemma star_split: "r \<in> set (star C s) \<Longrightarrow> \<exists>p. s = p @ r \<and> list_all C p"
proof (induction s)
  case Nil
  then show ?case by simp
next
  case (Cons c cs)
  show ?case
  proof (cases "r = c # cs")
    case True
    then show ?thesis by simp
  next
    case False
    with Cons.prems have c: "C c" and r: "r \<in> set (star C cs)"
      by (auto split: if_splits)
    from Cons.IH [OF r] obtain p where "cs = p @ r" "list_all C p" by blast
    with c have "c # cs = (c # p) @ r \<and> list_all C (c # p)" by simp
    then show ?thesis by blast
  qed
qed

lemma lit_prefix_length: "lit_prefix w s \<Longrightarrow> length w \<le> length s"
  by (induction w s rule: lit_prefix.induct) auto

lemma step_suffix: "r \<in> set (step i s) \<Longrightarrow> suffix r s"
proof (cases i)
  case (Lit w)
  assume "r \<in> set (step i s)"
  with Lit show ?thesis by (cases s) (auto simp add: suffix_Cons split: if_splits)
next
  case (Star C)
  assume "r \<in> set (step i s)"
  with Star star_split [of r C s] show ?thesis by (auto simp add: suffix_def)
next
  case (Plus C)
  assume r: "r \<in> set (step i s)"
  show ?thesis
  proof (cases s)
    case Nil
    with r Plus show ?thesis by simp
  next
    case (Cons c cs)
    with r Plus have "r \<in> set (star C cs)" by (auto split: if_splits)
    from star_split [OF this] obtain p where "cs = p @ r" by blast
    with Cons have "s = (c # p) @ r" by simp
    then show ?thesis unfolding suffix_def by blast
  qed
next
  case (Rep n C)
  assume "r \<in> set (step i s)"
  with Rep show ?thesis by (auto simp add: suffix_drop split: if_splits)
next
  case (Opt w)
  assume "r \<in> set (step i s)"
  with Opt show ?thesis by (auto simp add: suffix_drop split: if_splits)
qed

lemma run_suffix: "r \<in> set (run is s) \<Longrightarrow> suffix r s"
proof (induction "is" arbitrary: s)
  case Nil
  then show ?case by simp
next
  case (Cons i "is")
  from Cons.prems obtain s' where "s' \<in> set (step i s)" "r \<in> set (run is s')" by auto
  with Cons.IH [of s'] step_suffix [of s' i s] show ?case
    using suffix_order.trans by blast
qed

lemma plus_shorter: "r \<in> set (step (Plus C) s) \<Longrightarrow> length r < length s"
proof (cases s)
  case Nil
  assume "r \<in> set (step (Plus C) s)"
  with Nil show ?thesis by simp
next
  case (Cons c cs)
  assume "r \<in> set (step (Plus C) s)"
  with Cons have "r \<in> set (star C cs)" by (auto split: if_splits)
  from star_split [OF this] obtain p where "cs = p @ r" by blast
  with Cons show ?thesis by simp
qed

lemma consumed_append: "suffix r s \<Longrightarrow> consumed s r @ r = s"
  by (auto simp add: suffix_def consumed_def)

lemma str_match_Some:
  "str_match r s = Some m \<Longrightarrow> \<exists>a s'. s = a @ s' \<and> m \<in> set (match_at r s')"
proof (induction s)
  case Nil
  then show ?case by (auto split: list.splits)
next
  case (Cons c cs)
  show ?case
  proof (cases "match_at r (c # cs)")
    case Nil
    with Cons.prems have "str_match r cs = Some m" by simp
    from Cons.IH [OF this] obtain a s' where "cs = a @ s'" "m \<in> set (match_at r s')" by blast
    then have "c # cs = (c # a) @ s' \<and> m \<in> set (match_at r s')" by simp
    then show ?thesis by blast
  next
    case (Cons m' ms)
    with Cons.prems have "m = m'" by simp
    with Cons have "c # cs = [] @ (c # cs) \<and> m \<in> set (match_at r (c # cs))" by simp
    then show ?thesis by blast
  qed
qed

lemma branch_at_parts:
  "m \<in> set (branch_at b s) \<Longrightarrow>
     \<exists>s1 s2 s3. s1 \<in> set (run (before b) s) \<and> s2 \<in> set (run (group1 b) s1)
       \<and> s3 \<in> set (run (after b) s2)
       \<and> matched m = consumed s s3 \<and> captured m = consumed s1 s2"
  unfolding branch_at_def by fastforce

text \<open>A match is a contiguous part of the text, and so is what group 1 captured.\<close>

lemma captured_in_text:
  assumes "str_match r s = Some m"
  shows "\<exists>a b. s = a @ captured m @ b"
proof -
  from str_match_Some [OF assms] obtain a s' where s: "s = a @ s'" and m: "m \<in> set (match_at r s')"
    by blast
  from m obtain b where "b \<in> set (branches r)" "m \<in> set (branch_at b s')"
    by (auto simp add: match_at_def)
  from branch_at_parts [OF this(2)] obtain s1 s2 where
    s1: "s1 \<in> set (run (before b) s')" and s2: "s2 \<in> set (run (group1 b) s1)"
    and c: "captured m = consumed s1 s2"
    by blast
  from run_suffix [OF s1] obtain p where p: "s' = p @ s1" by (auto simp add: suffix_def)
  from consumed_append [OF run_suffix [OF s2]] c have "s1 = captured m @ s2" by simp
  with s p have "s = (a @ p) @ captured m @ s2" by simp
  then show ?thesis by blast
qed

text \<open>When group 1 begins with \<open>C+\<close>, what it captured is not empty.\<close>

lemma captured_nonempty:
  assumes m: "str_match r s = Some m"
    and g: "\<forall>b \<in> set (branches r). \<exists>C rest. group1 b = Plus C # rest"
  shows "captured m \<noteq> []"
proof -
  from str_match_Some [OF m] obtain s' where "m \<in> set (match_at r s')" by blast
  then obtain b where b: "b \<in> set (branches r)" and mb: "m \<in> set (branch_at b s')"
    by (auto simp add: match_at_def)
  from g b obtain C rest where gr: "group1 b = Plus C # rest" by blast
  from branch_at_parts [OF mb] obtain s1 s2 where
    s2: "s2 \<in> set (run (group1 b) s1)" and c: "captured m = consumed s1 s2"
    by blast
  from s2 gr obtain s1' where "s1' \<in> set (step (Plus C) s1)" "s2 \<in> set (run rest s1')" by auto
  with plus_shorter [of s1' C s1] run_suffix [of s2 rest s1'] have "length s2 < length s1"
    by (auto simp add: suffix_def)
  with c show ?thesis by (cases s1) (auto simp add: consumed_def)
qed

lemma str_match_empty: "str_match r [] = None \<longleftrightarrow> match_at r [] = []"
  by (simp split: list.splits)

section \<open>Facts about traces and values\<close>

lemma callback_contents_append [simp]:
  "callback_contents (xs @ ys) = callback_contents xs @ callback_contents ys"
  by (induction xs rule: callback_contents.induct) auto

lemma http_requests_append [simp]:
  "http_requests (xs @ ys) = http_requests xs @ http_requests ys"
  by (induction xs rule: http_requests.induct) auto

lemma extraction_events_append [simp]:
  "extraction_events (xs @ ys) = extraction_events xs @ extraction_events ys"
  by (induction xs rule: extraction_events.induct) auto

lemma typeof_string: "typeof v = ''string'' \<longleftrightarrow> (\<exists>s. v = JStr s)"
  by (cases v) auto

lemma typeof_number: "typeof v = ''number'' \<longleftrightarrow> (\<exists>n. v = JNum n)"
  by (cases v) auto

section \<open>The launch validator\<close>

text \<open>
  C7. \<open>isLaunchWorkloadContent\<close> accepts a candidate exactly when its \<open>type\<close> is a
  non-empty string and its \<open>expires\<close> is \<open>undefined\<close> or a number. It rejects
  \<open>{type: 123}\<close> and accepts \<open>{type: "anything", expires: 10}\<close>, although
  \<open>"anything"\<close> is not one of the declared workload types: the check is on the shape
  only.
\<close>

theorem launch_validator_structural:
  "(isLaunchWorkloadContent c \<longleftrightarrow>
      (\<exists>s. get c ''type'' = JStr s \<and> s \<noteq> []) \<and>
      (get c ''expires'' = JUndefined \<or> (\<exists>n. get c ''expires'' = JNum n)))
   \<and> \<not> isLaunchWorkloadContent [(''type'', JNum 123)]
   \<and> isLaunchWorkloadContent [(''type'', JStr ''anything''), (''expires'', JNum 10)]
   \<and> ''anything'' \<notin> set (map fst WORKLOAD_TYPE_PATTERNS)"
proof -
  have "isLaunchWorkloadContent c \<longleftrightarrow>
      (\<exists>s. get c ''type'' = JStr s \<and> s \<noteq> []) \<and>
      (get c ''expires'' = JUndefined \<or> (\<exists>n. get c ''expires'' = JNum n))"
    unfolding isLaunchWorkloadContent_def typeof_string typeof_number by auto
  moreover have "\<not> isLaunchWorkloadContent [(''type'', JNum 123)]"
    by (simp add: isLaunchWorkloadContent_def get_def)
  moreover have "isLaunchWorkloadContent [(''type'', JStr ''anything''), (''expires'', JNum 10)]"
    by (simp add: isLaunchWorkloadContent_def get_def)
  moreover have "''anything'' \<notin> set (map fst WORKLOAD_TYPE_PATTERNS)"
    by (simp add: WORKLOAD_TYPE_PATTERNS_def)
  ultimately show ?thesis by blast
qed

theorem launch_validator_structural_witness:
  "isLaunchWorkloadContent [(''type'', JStr ''media:fast'')]
   \<and> \<not> isLaunchWorkloadContent [(''type'', JStr ''media:fast''), (''expires'', JNull)]
   \<and> \<not> isLaunchWorkloadContent [(''type'', JStr []), (''expires'', JNum 10)]"
  using launch_validator_structural [of "[(''type'', JStr ''media:fast'')]"]
    launch_validator_structural [of "[(''type'', JStr ''media:fast''), (''expires'', JNull)]"]
    launch_validator_structural [of "[(''type'', JStr []), (''expires'', JNum 10)]"]
  by (simp add: get_def)

section \<open>Facts about the handlers\<close>

lemma no_key_no_client:
  assumes "\<not> truthy (getSetting h ''COMPUT3AI_API_KEY'')" and "env h ''COMPUT3AI_API_KEY'' = None"
  shows "createComput3ApiClient h = Inl (Error MISSING_API_KEY)" and "\<not> has_api_key h"
  using assms
  by (simp_all add: createComput3ApiClient_def fromRuntime_def has_api_key_def js_or_def env_value_def)

lemma has_key_client:
  "has_api_key h \<Longrightarrow> \<exists>c. createComput3ApiClient h = Inr c"
  by (auto simp add: createComput3ApiClient_def fromRuntime_def has_api_key_def js_or_def Let_def)

lemma model_calls_append [simp]: "model_calls (xs @ ys) = model_calls xs @ model_calls ys"
  by (induction xs rule: model_calls.induct) auto

lemma direct_extractions_append [simp]:
  "direct_extractions (xs @ ys) = direct_extractions xs @ direct_extractions ys"
  by (induction xs rule: direct_extractions.induct) auto

lemma model_calls_extraction [simp]: "model_calls (extraction_events tr) = model_calls tr"
  by (induction tr rule: extraction_events.induct) auto

lemma direct_extractions_extraction [simp]:
  "direct_extractions (extraction_events tr) = direct_extractions tr"
  by (induction tr rule: extraction_events.induct) auto

lemma reports_success [simp]: "reports ((''success'', JBool b) # rest) r \<longleftrightarrow> b = r"
  by (auto simp add: reports_def has_def get_def)

lemma reports_processing [simp]: "\<not> reports ((''processing'', v) # (''workload'', w) # []) r"
  by (simp add: reports_def has_def)

subsection \<open>Launch: callbacks and requests\<close>

lemma launch_from_model_quiet:
  "callback_contents (snd (launch_from_model h m st)) = []
   \<and> http_requests (snd (launch_from_model h m st)) = []"
  by (simp add: launch_from_model_def Let_def split: sum.splits option.splits jsval.splits)

lemma launch_extract_quiet:
  "callback_contents (snd (launch_extract h m st)) = []
   \<and> http_requests (snd (launch_extract h m st)) = []"
  by (simp add: launch_extract_def launch_from_model_quiet split: option.splits)

lemma launch_try_callbacks:
  "case launch_try h m st of
     (Inl e, tr) \<Rightarrow> callback_contents tr = []
   | (Inr r, tr) \<Rightarrow> (\<exists>c. callback_contents tr = [c] \<and> reports c r)"
proof (cases "createComput3ApiClient h")
  case (Inl e)
  then show ?thesis by (simp add: launch_try_def)
next
  case (Inr apiClient)
  obtain r tr where ex: "launch_extract h m st = (r, tr)" by (cases "launch_extract h m st")
  have q: "callback_contents tr = []" using launch_extract_quiet [of h m st] ex by simp
  show ?thesis
    using q
    by (cases r)
       (simp_all add: launch_try_def Inr ex Let_def launchWorkload_def client_post_def
          split: prod.splits sum.splits)
qed

lemma launch_handler_callbacks:
  "\<exists>c. callback_contents (snd (launch_handler h m st)) = [c]
       \<and> reports c (fst (launch_handler h m st))"
proof -
  obtain r tr where t: "launch_try h m st = (r, tr)" by (cases "launch_try h m st")
  show ?thesis
    using launch_try_callbacks [of h m st] t
    by (cases r) (auto simp add: launch_handler_def Let_def)
qed

subsection \<open>Stop: callbacks and requests\<close>

lemma stop_from_model_shape:
  "case stop_from_model h st of
     (Inl e, tr) \<Rightarrow> callback_contents tr = [] \<and> http_requests tr = []
   | (Inr None, tr) \<Rightarrow>
       (\<exists>c. callback_contents tr = [c] \<and> reports c False) \<and> http_requests tr = []
   | (Inr (Some p), tr) \<Rightarrow> callback_contents tr = [] \<and> http_requests tr = []"
  by (simp add: stop_from_model_def Let_def split: sum.splits option.splits)

lemma stop_extract_shape:
  "case stop_extract h m st of
     (Inl e, tr) \<Rightarrow> callback_contents tr = [] \<and> http_requests tr = []
   | (Inr None, tr) \<Rightarrow>
       (\<exists>c. callback_contents tr = [c] \<and> reports c False) \<and> http_requests tr = []
   | (Inr (Some p), tr) \<Rightarrow> callback_contents tr = [] \<and> http_requests tr = []"
proof -
  obtain r tr where f: "stop_from_model h st = (r, tr)" by (cases "stop_from_model h st")
  show ?thesis
    using stop_from_model_shape [of h st] f
    by (auto simp add: stop_extract_def Let_def split: sum.splits option.splits)
qed

lemma stop_try_shape:
  "case stop_try h m st of
     (Inl e, tr) \<Rightarrow>
       (if http_requests tr = [] then callback_contents tr = []
        else \<exists>w. callback_contents tr = [[(''processing'', JBool True), (''workload'', w)]])
   | (Inr r, tr) \<Rightarrow>
       (\<exists>pre c. callback_contents tr = pre @ [c] \<and> reports c r
             \<and> (if http_requests tr = [] then pre = []
                 else \<exists>w. pre = [[(''processing'', JBool True), (''workload'', w)]]))"
proof (cases "createComput3ApiClient h")
  case (Inl e)
  then show ?thesis by (simp add: stop_try_def)
next
  case (Inr apiClient)
  obtain r tr where ex: "stop_extract h m st = (r, tr)" by (cases "stop_extract h m st")
  show ?thesis
    using stop_extract_shape [of h m st] ex
    by (auto simp add: stop_try_def Inr Let_def stopWorkload_def client_post_def
          split: sum.splits option.splits prod.splits)
qed

lemma stop_handler_callbacks:
  "\<exists>pre c. callback_contents (snd (stop_handler h m st)) = pre @ [c]
       \<and> reports c (fst (stop_handler h m st))
       \<and> (if http_requests (snd (stop_handler h m st)) = [] then pre = []
           else \<exists>w. pre = [[(''processing'', JBool True), (''workload'', w)]])"
proof -
  obtain r tr where t: "stop_try h m st = (r, tr)" by (cases "stop_try h m st")
  show ?thesis
    using stop_try_shape [of h m st] t
    by (cases r) (auto simp add: stop_handler_def Let_def)
qed

subsection \<open>Extraction events\<close>

lemma launch_from_model_events:
  "extraction_events (snd (launch_from_model h m st)) =
     ModelCall (launch_prompt h st) #
       (case useModel h (launch_prompt h st) of
          Inl e \<Rightarrow> []
        | Inr result \<Rightarrow>
            (case parseJSONObjectFromText h result of
               None \<Rightarrow> []
             | Some launchParams \<Rightarrow>
                 if isLaunchWorkloadContent launchParams then []
                 else (case message_text m of JStr t \<Rightarrow> [DirectExtraction t] | _ \<Rightarrow> [])))"
  by (simp add: launch_from_model_def Let_def split: sum.splits option.splits jsval.splits)

lemma launch_extract_events:
  "extraction_events (snd (launch_extract h m st)) =
     (if \<exists>c. message_content m = Some c \<and> has c ''type'' then []
      else extraction_events (snd (launch_from_model h m st)))"
  by (simp add: launch_extract_def split: option.splits)

lemma launch_try_events:
  "extraction_events (snd (launch_try h m st)) =
     (case createComput3ApiClient h of
        Inl e \<Rightarrow> []
      | Inr c \<Rightarrow> extraction_events (snd (launch_extract h m st)))"
proof (cases "createComput3ApiClient h")
  case (Inl e)
  then show ?thesis by (simp add: launch_try_def)
next
  case (Inr apiClient)
  obtain r tr where ex: "launch_extract h m st = (r, tr)" by (cases "launch_extract h m st")
  show ?thesis
    by (cases r)
       (simp_all add: launch_try_def Inr ex Let_def launchWorkload_def client_post_def
          split: prod.splits sum.splits)
qed

lemma launch_handler_events:
  "extraction_events (snd (launch_handler h m st)) = extraction_events (snd (launch_try h m st))"
proof -
  obtain r tr where t: "launch_try h m st = (r, tr)" by (cases "launch_try h m st")
  show ?thesis by (cases r) (simp_all add: launch_handler_def t Let_def)
qed

lemma stop_from_model_events:
  "extraction_events (snd (stop_from_model h st)) = [ModelCall (stop_prompt h st)]"
  by (simp add: stop_from_model_def Let_def split: sum.splits option.splits)

lemma stop_extract_events:
  "extraction_events (snd (stop_extract h m st)) =
     (case message_content m of
        None \<Rightarrow> []
      | Some c \<Rightarrow>
          if has c ''workload'' \<and> typeof (get c ''workload'') = ''string'' then []
          else if has c ''text'' \<and> typeof (get c ''text'') = ''string'' then
            DirectExtraction (string_of (get c ''text'')) #
              (if validateStopWorkloadFromText (string_of (get c ''text'')) = None
               then [ModelCall (stop_prompt h st)] else [])
          else [])"
proof -
  obtain r tr where f: "stop_from_model h st = (r, tr)" by (cases "stop_from_model h st")
  show ?thesis
    using stop_from_model_events [of h st] f
    by (auto simp add: stop_extract_def Let_def split: option.splits)
qed

lemma stop_try_events:
  "extraction_events (snd (stop_try h m st)) =
     (case createComput3ApiClient h of
        Inl e \<Rightarrow> []
      | Inr c \<Rightarrow> extraction_events (snd (stop_extract h m st)))"
proof (cases "createComput3ApiClient h")
  case (Inl e)
  then show ?thesis by (simp add: stop_try_def)
next
  case (Inr apiClient)
  obtain r tr where ex: "stop_extract h m st = (r, tr)" by (cases "stop_extract h m st")
  show ?thesis
    by (cases r)
       (simp_all add: stop_try_def Inr ex Let_def stopWorkload_def client_post_def
          split: prod.splits option.splits sum.splits)
qed

lemma stop_handler_events:
  "extraction_events (snd (stop_handler h m st)) = extraction_events (snd (stop_try h m st))"
proof -
  obtain r tr where t: "stop_try h m st = (r, tr)" by (cases "stop_try h m st")
  show ?thesis by (cases r) (simp_all add: stop_handler_def t Let_def)
qed

lemma stop_extraction_counts:
  "length (model_calls (snd (stop_handler h m st))) \<le> 1
   \<and> length (direct_extractions (snd (stop_handler h m st))) \<le> 1"
proof -
  have "length (model_calls (extraction_events (snd (stop_handler h m st)))) \<le> 1
      \<and> length (direct_extractions (extraction_events (snd (stop_handler h m st)))) \<le> 1"
    unfolding stop_handler_events stop_try_events stop_extract_events
    by (simp split: sum.splits option.splits)
  then show ?thesis by simp
qed

lemma launch_extraction_counts:
  "length (model_calls (snd (launch_handler h m st))) \<le> 1
   \<and> length (direct_extractions (snd (launch_handler h m st))) \<le> 1"
proof -
  have "length (model_calls (extraction_events (snd (launch_handler h m st)))) \<le> 1
      \<and> length (direct_extractions (extraction_events (snd (launch_handler h m st)))) \<le> 1"
    unfolding launch_handler_events launch_try_events launch_extract_events launch_from_model_events
    by (simp split: sum.splits option.splits jsval.splits)
  then show ?thesis by simp
qed

lemma has_text: "get c ''text'' = JStr t \<Longrightarrow> has c ''text''"
  by (auto simp add: get_def has_def split: option.splits)

section \<open>Callbacks per turn\<close>

text \<open>
  C1 as it is written fails for the stop handler: a turn that reaches the remote service
  invokes the callback twice, first with \<open>{processing: true, workload}\<close>, then with the
  result. Here the workload is given in the structured content and the service accepts.
\<close>

theorem stop_turn_two_callbacks:
  "stop_handler example_host \<lparr>message_content = Some [(''workload'', JStr ''w1'')]\<rparr> None =
     (True,
      [Callback ''Stopping your workload with ID 'w1' now...''
         [(''processing'', JBool True), (''workload'', JStr ''w1'')],
       Http (POST ''/stop'' (JObj [(''workload'', JStr ''w1'')])),
       Callback (join [CHR 0x0A] [''Successfully stopped workload!'', [], ''Workload ID: w1'',
                                  ''Status: Stopped''])
         [(''success'', JBool True), (''data'', JObj [(''workload'', JStr ''w1'')]),
          (''request'', JObj [(''workload'', JStr ''w1'')]), (''workload'', JStr ''w1'')]])"
  by code_simp

text \<open>
  C1, amended. Every turn of the launch handler invokes the callback exactly once, and
  its content carries \<open>success\<close> with the value the handler returns. Every turn of the
  stop handler ends with one callback whose content carries \<open>success\<close> with the value the
  handler returns; it is the only callback of the turn when no request was sent, and it
  is preceded by exactly one callback \<open>{processing: true, workload}\<close> when the stop request
  was sent.
\<close>

theorem one_result_callback_per_turn:
  "(\<exists>c. callback_contents (snd (launch_handler h m st)) = [c]
        \<and> reports c (fst (launch_handler h m st)))
   \<and> (\<exists>pre c. callback_contents (snd (stop_handler h m' st')) = pre @ [c]
        \<and> reports c (fst (stop_handler h m' st'))
        \<and> (if http_requests (snd (stop_handler h m' st')) = [] then pre = []
            else \<exists>w. pre = [[(''processing'', JBool True), (''workload'', w)]]))"
  using launch_handler_callbacks [of h m st] stop_handler_callbacks [of h m' st'] by blast

theorem one_result_callback_per_turn_witness:
  "http_requests (snd (stop_handler example_host (text_message ''no id here'') None)) = []
   \<and> (\<exists>c. callback_contents (snd (stop_handler example_host (text_message ''no id here'') None)) = [c]
         \<and> reports c False)
   \<and> (\<exists>c. callback_contents (snd (launch_handler example_host (text_message ''a coding workload'') None)) = [c]
         \<and> reports c True)"
proof -
  have a: "http_requests (snd (stop_handler example_host (text_message ''no id here'') None)) = []"
    by code_simp
  have b: "fst (stop_handler example_host (text_message ''no id here'') None) = False"
    by code_simp
  have c: "fst (launch_handler example_host (text_message ''a coding workload'') None) = True"
    by code_simp
  show ?thesis
    using one_result_callback_per_turn [of example_host "text_message ''a coding workload''" None
        "text_message ''no id here''" None] a b c
    by auto
qed

section \<open>The missing API key\<close>

text \<open>
  C9. When the API key is absent from the runtime settings and from the process
  environment, \<open>validate\<close> of every action returns \<open>false\<close>, and every handler, if it is
  invoked all the same, returns \<open>false\<close> after a single callback with \<open>success: false\<close>
  and the missing-key message: no request is sent, no model is called, and the exception
  of the client factory does not leave the handler.
\<close>

theorem missing_api_key_fails_before_network:
  assumes "\<not> truthy (getSetting h ''COMPUT3AI_API_KEY'')" and "env h ''COMPUT3AI_API_KEY'' = None"
  shows "\<not> launch_validate h \<and> \<not> stop_validate h \<and> \<not> list_validate h
       \<and> \<not> types_validate h \<and> \<not> balance_validate h \<and> \<not> profile_validate h
       \<and> (\<exists>text. launch_handler h message state =
             (False, [Callback text [(''success'', JBool False), (''error'', JStr MISSING_API_KEY)]]))
       \<and> (\<exists>text. stop_handler h message state =
             (False, [Callback text [(''success'', JBool False), (''error'', JStr MISSING_API_KEY)]]))
       \<and> (\<exists>text. list_handler h message =
             (False, [Callback text [(''success'', JBool False), (''error'', JStr MISSING_API_KEY)]]))
       \<and> (\<exists>text. types_handler h =
             (False, [Callback text [(''success'', JBool False), (''error'', JStr MISSING_API_KEY)]]))
       \<and> (\<exists>text. balance_handler h =
             (False, [Callback text [(''success'', JBool False), (''error'', JStr MISSING_API_KEY)]]))
       \<and> (\<exists>text. profile_handler h =
             (False, [Callback text [(''success'', JBool False), (''error'', JStr MISSING_API_KEY)]]))"
proof -
  note nk = no_key_no_client [OF assms]
  have v: "\<not> launch_validate h \<and> \<not> stop_validate h \<and> \<not> list_validate h
       \<and> \<not> types_validate h \<and> \<not> balance_validate h \<and> \<not> profile_validate h"
    using nk(2)
    by (simp add: launch_validate_def stop_validate_def list_validate_def types_validate_def
        balance_validate_def profile_validate_def)
  have l: "\<exists>text. launch_handler h message state =
             (False, [Callback text [(''success'', JBool False), (''error'', JStr MISSING_API_KEY)]])"
    by (simp add: launch_handler_def launch_try_def nk(1) catch_message_def Let_def)
  have s: "\<exists>text. stop_handler h message state =
             (False, [Callback text [(''success'', JBool False), (''error'', JStr MISSING_API_KEY)]])"
    by (simp add: stop_handler_def stop_try_def nk(1) catch_message_def Let_def)
  have li: "\<exists>text. list_handler h message =
             (False, [Callback text [(''success'', JBool False), (''error'', JStr MISSING_API_KEY)]])"
    by (simp add: list_handler_def list_try_def nk(1) catch_message_def Let_def)
  have f: "\<exists>text. fetch_handler h call format what =
             (False, [Callback text [(''success'', JBool False), (''error'', JStr MISSING_API_KEY)]])"
    for call format what
    by (simp add: fetch_handler_def fetch_try_def nk(1) catch_message_def Let_def)
  show ?thesis
    using v l s li f unfolding types_handler_def balance_handler_def profile_handler_def
    by blast
qed

theorem missing_api_key_fails_before_network_witness:
  "\<not> truthy (getSetting keyless_host ''COMPUT3AI_API_KEY'')
   \<and> env keyless_host ''COMPUT3AI_API_KEY'' = None
   \<and> \<not> launch_validate keyless_host
   \<and> (\<exists>text. launch_handler keyless_host (text_message ''Launch a media:fast workload'') None =
         (False, [Callback text [(''success'', JBool False), (''error'', JStr MISSING_API_KEY)]]))
   \<and> (\<exists>text. list_handler keyless_host (text_message ''list my running workloads'') =
         (False, [Callback text [(''success'', JBool False), (''error'', JStr MISSING_API_KEY)]]))"
proof -
  have a: "\<not> truthy (getSetting keyless_host ''COMPUT3AI_API_KEY'')"
    by (simp add: keyless_host_def)
  have b: "env keyless_host ''COMPUT3AI_API_KEY'' = None"
    by (simp add: keyless_host_def example_host_def)
  show ?thesis
    using missing_api_key_fails_before_network [OF a b] a b by blast
qed

section \<open>The list request\<close>

text \<open>
  C10. With an API key and a message whose text is a string or is missing, the list
  handler sends one request, \<open>POST /workloads\<close>, whose body has \<open>running\<close> set to \<open>true\<close>
  when the lower-cased text contains \<open>running\<close> and left \<open>undefined\<close> otherwise. The
  client puts its default body \<open>{running: true}\<close> in place of the argument only when the
  argument is absent; an object is sent as it is.
\<close>

theorem list_running_filter:
  "(has_api_key h \<and> js_or (message_text m) (JStr []) = JStr t \<longrightarrow>
      http_requests (snd (list_handler h m)) =
        [POST ''/workloads''
           (JObj [(''running'',
                   if str_includes (toLowerCase t) ''running'' then JBool True else JUndefined)])])
   \<and> listWorkloads h c JUndefined = client_post h c ''/workloads'' (JObj [(''running'', JBool True)])
   \<and> listWorkloads h c (JObj req) = client_post h c ''/workloads'' (JObj req)"
proof -
  have a: "http_requests (snd (list_handler h m)) =
        [POST ''/workloads''
           (JObj [(''running'',
                   if str_includes (toLowerCase t) ''running'' then JBool True else JUndefined)])]"
    if k: "has_api_key h" and t: "js_or (message_text m) (JStr []) = JStr t"
  proof -
    obtain cl where cl: "createComput3ApiClient h = Inr cl" using has_key_client [OF k] by blast
    have o: "js_or (JBool b) JUndefined = (if b then JBool True else JUndefined)" for b
      by (simp add: js_or_def)
    have o2: "js_or (JObj x) y = JObj x" for x y
      by (simp add: js_or_def)
    show ?thesis
      by (simp add: list_handler_def list_try_def cl t Let_def listWorkloads_def client_post_def
          o o2 split: sum.splits)
  qed
  have b: "listWorkloads h c JUndefined = client_post h c ''/workloads'' (JObj [(''running'', JBool True)])"
    by (simp add: listWorkloads_def js_or_def)
  have d: "listWorkloads h c (JObj req) = client_post h c ''/workloads'' (JObj req)"
    by (simp add: listWorkloads_def js_or_def)
  show ?thesis using a b d by blast
qed

theorem list_running_filter_witness:
  "has_api_key example_host
   \<and> http_requests (snd (list_handler example_host (text_message ''Show me my RUNNING workloads''))) =
       [POST ''/workloads'' (JObj [(''running'', JBool True)])]
   \<and> http_requests (snd (list_handler example_host (text_message ''List all my Comput3 workloads''))) =
       [POST ''/workloads'' (JObj [(''running'', JUndefined)])]
   \<and> http_requests (snd (list_handler example_host \<lparr>message_content = None\<rparr>)) =
       [POST ''/workloads'' (JObj [(''running'', JUndefined)])]"
proof -
  have k: "has_api_key example_host" by code_simp
  have t1: "js_or (message_text (text_message ''Show me my RUNNING workloads'')) (JStr [])
              = JStr ''Show me my RUNNING workloads''"
    by (simp add: js_or_def message_text_def text_message_def get_def)
  have t2: "js_or (message_text (text_message ''List all my Comput3 workloads'')) (JStr [])
              = JStr ''List all my Comput3 workloads''"
    by (simp add: js_or_def message_text_def text_message_def get_def)
  have t3: "js_or (message_text \<lparr>message_content = None\<rparr>) (JStr []) = JStr []"
    by (simp add: js_or_def message_text_def)
  have r1: "str_includes (toLowerCase ''Show me my RUNNING workloads'') ''running''" by code_simp
  have r2: "\<not> str_includes (toLowerCase ''List all my Comput3 workloads'') ''running''" by code_simp
  have r3: "\<not> str_includes (toLowerCase []) ''running''" by code_simp
  show ?thesis
    using list_running_filter [of example_host "text_message ''Show me my RUNNING workloads''"
        "''Show me my RUNNING workloads''"]
      list_running_filter [of example_host "text_message ''List all my Comput3 workloads''"
        "''List all my Comput3 workloads''"]
      list_running_filter [of example_host "\<lparr>message_content = None\<rparr>" "[]"]
      k t1 t2 t3 r1 r2 r3
    by simp
qed

section \<open>The order of the extraction paths\<close>

text \<open>
  C6. On a message without the pre-structured field, the stop handler runs the
  deterministic extraction on the text first and calls the model only when that finds no
  identifier; the launch handler calls the model first and runs the deterministic
  extraction only when the model's answer has been parsed to an object that the validator
  rejects. In every turn each path is taken at most once.
\<close>

theorem extraction_order:
  "(has_api_key h \<and> message_content m = Some c
      \<and> \<not> (has c ''workload'' \<and> typeof (get c ''workload'') = ''string'')
      \<and> get c ''text'' = JStr t \<longrightarrow>
      extraction_events (snd (stop_handler h m st)) =
        DirectExtraction t #
          (if validateStopWorkloadFromText t = None then [ModelCall (stop_prompt h st)] else []))
   \<and> (has_api_key h \<and> \<not> (\<exists>c. message_content m' = Some c \<and> has c ''type'') \<longrightarrow>
      extraction_events (snd (launch_handler h m' st)) =
        ModelCall (launch_prompt h st) #
          (case useModel h (launch_prompt h st) of
             Inl e \<Rightarrow> []
           | Inr result \<Rightarrow>
               (case parseJSONObjectFromText h result of
                  None \<Rightarrow> []
                | Some launchParams \<Rightarrow>
                    if isLaunchWorkloadContent launchParams then []
                    else (case message_text m' of JStr text \<Rightarrow> [DirectExtraction text] | _ \<Rightarrow> []))))
   \<and> length (model_calls (snd (stop_handler h m st))) \<le> 1
   \<and> length (direct_extractions (snd (stop_handler h m st))) \<le> 1
   \<and> length (model_calls (snd (launch_handler h m' st))) \<le> 1
   \<and> length (direct_extractions (snd (launch_handler h m' st))) \<le> 1"
proof -
  have stop: "extraction_events (snd (stop_handler h m st)) =
        DirectExtraction t #
          (if validateStopWorkloadFromText t = None then [ModelCall (stop_prompt h st)] else [])"
    if k: "has_api_key h" and c: "message_content m = Some c"
      and w: "\<not> (has c ''workload'' \<and> typeof (get c ''workload'') = ''string'')"
      and t: "get c ''text'' = JStr t"
  proof -
    obtain cl where cl: "createComput3ApiClient h = Inr cl" using has_key_client [OF k] by blast
    show ?thesis
      using w has_text [OF t]
      by (simp add: stop_handler_events stop_try_events stop_extract_events cl c t)
  qed
  have launch: "extraction_events (snd (launch_handler h m' st)) =
        ModelCall (launch_prompt h st) #
          (case useModel h (launch_prompt h st) of
             Inl e \<Rightarrow> []
           | Inr result \<Rightarrow>
               (case parseJSONObjectFromText h result of
                  None \<Rightarrow> []
                | Some launchParams \<Rightarrow>
                    if isLaunchWorkloadContent launchParams then []
                    else (case message_text m' of JStr text \<Rightarrow> [DirectExtraction text] | _ \<Rightarrow> [])))"
    if k: "has_api_key h" and n: "\<not> (\<exists>c. message_content m' = Some c \<and> has c ''type'')"
  proof -
    obtain cl where cl: "createComput3ApiClient h = Inr cl" using has_key_client [OF k] by blast
    show ?thesis
      using n
      by (simp add: launch_handler_events launch_try_events launch_extract_events
          launch_from_model_events cl)
  qed
  show ?thesis
    using stop launch stop_extraction_counts [of h m st] launch_extraction_counts [of h m' st]
    by blast
qed

theorem extraction_order_witness:
  "has_api_key example_host
   \<and> extraction_events (snd (stop_handler example_host (text_message ''no id here'') None)) =
       [DirectExtraction ''no id here'', ModelCall []]
   \<and> extraction_events (snd (stop_handler example_host (text_message ''stop wrk_abc'') None)) =
       [DirectExtraction ''stop wrk_abc'']
   \<and> extraction_events (snd (launch_handler example_host (text_message ''a coding workload'') None)) =
       [ModelCall [], DirectExtraction ''a coding workload'']"
proof -
  have k: "has_api_key example_host" by code_simp
  have c1: "message_content (text_message ''no id here'') = Some [(''text'', JStr ''no id here'')]"
    by (simp add: text_message_def)
  have c2: "message_content (text_message ''stop wrk_abc'') = Some [(''text'', JStr ''stop wrk_abc'')]"
    by (simp add: text_message_def)
  have n: "\<not> (\<exists>c. message_content (text_message ''a coding workload'') = Some c \<and> has c ''type'')"
    by (simp add: text_message_def has_def)
  have v1: "validateStopWorkloadFromText ''no id here'' = None" by code_simp
  have v2: "validateStopWorkloadFromText ''stop wrk_abc'' \<noteq> None" by code_simp
  have p: "stop_prompt example_host None = []" "launch_prompt example_host None = []"
    by (simp_all add: stop_prompt_def launch_prompt_def example_host_def formatRecentMessages_def)
  have u: "useModel example_host [] = Inr ''{}''"
    "parseJSONObjectFromText example_host ''{}'' = Some []"
    by (simp_all add: example_host_def)
  have i: "\<not> isLaunchWorkloadContent []" by (simp add: isLaunchWorkloadContent_def get_def)
  have mt: "message_text (text_message ''a coding workload'') = JStr ''a coding workload''"
    by (simp add: message_text_def text_message_def get_def)
  show ?thesis
    using extraction_order [where h = example_host and m = "text_message ''no id here''"
        and c = "[(''text'', JStr ''no id here'')]" and t = "''no id here''" and st = None
        and m' = "text_message ''a coding workload''"]
      extraction_order [where h = example_host and m = "text_message ''stop wrk_abc''"
        and c = "[(''text'', JStr ''stop wrk_abc'')]" and t = "''stop wrk_abc''" and st = None
        and m' = "text_message ''a coding workload''"]
      k c1 c2 n v1 v2 p u i mt
    by (simp add: has_def get_def)
qed

section \<open>From minutes to a Unix timestamp\<close>








section \<open>The workload type extractor\<close>







section \<open>The expiration extractor\<close>

lemma captured_class:
  assumes m: "str_match r s = Some m"
    and g: "\<forall>b \<in> set (branches r). group1 b = [Plus C]"
  shows "list_all C (captured m)"
proof -
  from str_match_Some [OF m] obtain s' where "m \<in> set (match_at r s')" by blast
  then obtain b where b: "b \<in> set (branches r)" and mb: "m \<in> set (branch_at b s')"
    by (auto simp add: match_at_def)
  from branch_at_parts [OF mb] obtain s1 s2 where
    s2: "s2 \<in> set (run (group1 b) s1)" and c: "captured m = consumed s1 s2"
    by blast
  from s2 g b have st: "s2 \<in> set (step (Plus C) s1)" by simp
  then obtain x xs where s1: "s1 = x # xs" by (cases s1) auto
  with st have x: "C x" and "s2 \<in> set (star C xs)" by (auto split: if_splits)
  from star_split [OF this(2)] obtain p where p: "xs = p @ s2" "list_all C p" by blast
  with s1 c x show ?thesis by (simp add: consumed_def)
qed

lemma expiration_groups:
  "\<forall>p \<in> set expirationPatterns. \<forall>b \<in> set (branches p). group1 b = [Plus digit]"
  by (simp add: expirationPatterns_def expires_in_pattern_def for_pattern_def expir_pattern_def
      minutes_pattern_def hours_pattern_def)

lemma expiration_captured:
  assumes "p \<in> set expirationPatterns" and "str_match p text = Some m"
  shows "captured m \<noteq> []" and "list_all digit (captured m)"
proof -
  from assms(1) expiration_groups have g: "\<forall>b \<in> set (branches p). group1 b = [Plus digit]"
    by blast
  then have "\<forall>b \<in> set (branches p). \<exists>C rest. group1 b = Plus C # rest" by simp
  from captured_nonempty [OF assms(2) this] show "captured m \<noteq> []" .
  from captured_class [OF assms(2) g] show "list_all digit (captured m)" .
qed

lemma expiration_hours_flags:
  "\<not> str_includes (source expires_in_pattern) ''hours''"
  "\<not> str_includes (source for_pattern) ''hours''"
  "\<not> str_includes (source expir_pattern) ''hours''"
  "\<not> str_includes (source minutes_pattern) ''hours''"
  "str_includes (source hours_pattern) ''hours''"
  by code_simp+

lemma expiration_empty:
  "str_match expires_in_pattern [] = None" "str_match for_pattern [] = None"
  "str_match expir_pattern [] = None" "str_match minutes_pattern [] = None"
  "str_match hours_pattern [] = None"
  by code_simp+

lemma expiration_chain:
  "extractExpirationTime text d =
     (case str_match expires_in_pattern text of Some m \<Rightarrow> parseInt (captured m) | None \<Rightarrow>
      (case str_match for_pattern text of Some m \<Rightarrow> parseInt (captured m) | None \<Rightarrow>
      (case str_match expir_pattern text of Some m \<Rightarrow> parseInt (captured m) | None \<Rightarrow>
      (case str_match minutes_pattern text of Some m \<Rightarrow> parseInt (captured m) | None \<Rightarrow>
      (case str_match hours_pattern text of Some m \<Rightarrow> 60 * parseInt (captured m) | None \<Rightarrow> d)))))"
proof (cases "text = []")
  case True
  then show ?thesis
    by (simp add: extractExpirationTime_def expiration_empty del: str_match.simps)
next
  case False
  have ne: "captured m \<noteq> []" if "p \<in> set expirationPatterns" "str_match p text = Some m" for p m
    using expiration_captured(1) [OF that] .
  have in_set: "expires_in_pattern \<in> set expirationPatterns" "for_pattern \<in> set expirationPatterns"
    "expir_pattern \<in> set expirationPatterns" "minutes_pattern \<in> set expirationPatterns"
    "hours_pattern \<in> set expirationPatterns"
    by (simp_all add: expirationPatterns_def)
  show ?thesis
    using False ne [OF in_set(1)] ne [OF in_set(2)] ne [OF in_set(3)] ne [OF in_set(4)]
      ne [OF in_set(5)]
    by (simp add: extractExpirationTime_def expirationPatterns_def expiration_hours_flags Let_def
        del: str_match.simps split: option.splits)
qed



section \<open>The workload identifier extractor\<close>

lemma id_groups:
  "\<forall>p \<in> set (uuidPattern # comput3DomainPattern # workloadPatterns).
     \<forall>b \<in> set (branches p). (\<exists>C rest. group1 b = Plus C # rest) \<or> (\<exists>rest. group1 b = Rep 8 hex # rest)"
  by (simp add: workloadPatterns_def uuidPattern_def comput3DomainPattern_def wrk_pattern_def
      workload_pattern_def four_words_pattern_def uuid_items_def domain_items_def)

lemma captured_nonempty_rep:
  assumes m: "str_match r s = Some m"
    and g: "\<forall>b \<in> set (branches r). (\<exists>C rest. group1 b = Plus C # rest)
              \<or> (\<exists>n C rest. group1 b = Rep (Suc n) C # rest)"
  shows "captured m \<noteq> []"
proof -
  from str_match_Some [OF m] obtain s' where "m \<in> set (match_at r s')" by blast
  then obtain b where b: "b \<in> set (branches r)" and mb: "m \<in> set (branch_at b s')"
    by (auto simp add: match_at_def)
  from branch_at_parts [OF mb] obtain s1 s2 where
    s2: "s2 \<in> set (run (group1 b) s1)" and c: "captured m = consumed s1 s2"
    by blast
  have "length s2 < length s1"
  proof -
    from g b consider C rest where "group1 b = Plus C # rest"
      | n C rest where "group1 b = Rep (Suc n) C # rest"
      by blast
    then show ?thesis
    proof cases
      case 1
      with s2 obtain s1' where "s1' \<in> set (step (Plus C) s1)" "s2 \<in> set (run rest s1')" by auto
      with plus_shorter [of s1' C s1] run_suffix [of s2 rest s1'] show ?thesis
        by (auto simp add: suffix_def)
    next
      case 2
      with s2 obtain s1' where "s1' \<in> set (step (Rep (Suc n) C) s1)" "s2 \<in> set (run rest s1')"
        by auto
      then have "length s1' < length s1" "suffix s2 s1'"
        using run_suffix [of s2 rest s1'] by (auto split: if_splits)
      then show ?thesis by (auto simp add: suffix_def)
    qed
  qed
  with c show ?thesis by (cases s1) (auto simp add: consumed_def)
qed

lemma id_captured:
  assumes "p \<in> set (uuidPattern # comput3DomainPattern # workloadPatterns)"
    and "str_match p text = Some m"
  shows "captured m \<noteq> []"
proof -
  have "\<forall>b \<in> set (branches p). (\<exists>C rest. group1 b = Plus C # rest)
              \<or> (\<exists>n C rest. group1 b = Rep (Suc n) C # rest)"
  proof
    fix b assume "b \<in> set (branches p)"
    with id_groups assms(1) have "(\<exists>C rest. group1 b = Plus C # rest) \<or> (\<exists>rest. group1 b = Rep 8 hex # rest)"
      by blast
    moreover have "(8::nat) = Suc 7" by simp
    ultimately show "(\<exists>C rest. group1 b = Plus C # rest)
              \<or> (\<exists>n C rest. group1 b = Rep (Suc n) C # rest)"
      by metis
  qed
  from captured_nonempty_rep [OF assms(2) this] show ?thesis .
qed

lemma id_prefix_flags:
  "str_includes (source wrk_pattern) ''wrk_''"
  "\<not> str_includes (source workload_pattern) ''wrk_''"
  "\<not> str_includes (source four_words_pattern) ''wrk_''"
  by code_simp+

lemma id_empty:
  "str_match uuidPattern [] = None" "str_match comput3DomainPattern [] = None"
  "str_match wrk_pattern [] = None" "str_match workload_pattern [] = None"
  "str_match four_words_pattern [] = None"
  by code_simp+

lemma extractWorkloadId_chain:
  "extractWorkloadId text =
     (case str_match uuidPattern text of Some m \<Rightarrow> Some (captured m) | None \<Rightarrow>
      (case str_match comput3DomainPattern text of Some m \<Rightarrow> Some (captured m) | None \<Rightarrow>
      (case str_match wrk_pattern text of Some m \<Rightarrow> Some (''wrk_'' @ captured m) | None \<Rightarrow>
      (case str_match workload_pattern text of Some m \<Rightarrow> Some (captured m) | None \<Rightarrow>
      (case str_match four_words_pattern text of Some m \<Rightarrow> Some (captured m) | None \<Rightarrow> None)))))"
proof (cases "text = []")
  case True
  then show ?thesis
    by (simp add: extractWorkloadId_def domain_or_looser_def id_empty del: str_match.simps)
next
  case False
  have ne: "captured m \<noteq> []"
    if "p \<in> set (uuidPattern # comput3DomainPattern # workloadPatterns)" "str_match p text = Some m"
    for p m
    using id_captured [OF that] .
  have in_set: "uuidPattern \<in> set (uuidPattern # comput3DomainPattern # workloadPatterns)"
    "comput3DomainPattern \<in> set (uuidPattern # comput3DomainPattern # workloadPatterns)"
    "wrk_pattern \<in> set (uuidPattern # comput3DomainPattern # workloadPatterns)"
    "workload_pattern \<in> set (uuidPattern # comput3DomainPattern # workloadPatterns)"
    "four_words_pattern \<in> set (uuidPattern # comput3DomainPattern # workloadPatterns)"
    by (simp_all add: workloadPatterns_def)
  show ?thesis
    using False ne [OF in_set(1)] ne [OF in_set(2)] ne [OF in_set(3)] ne [OF in_set(4)]
      ne [OF in_set(5)]
    by (simp add: extractWorkloadId_def domain_or_looser_def workloadPatterns_def
        id_prefix_flags del: str_match.simps split: option.splits)
qed



section \<open>Running an extractor on its own result put in front of the text\<close>

lemma decimal_digits: "list_all digit (decimal n)"
proof (induction n rule: decimal.induct)
  case (1 n)
  have d: "digit (digits ! k)" if "k < 10" for k
    unfolding digit_def using that by (intro nth_mem) (simp add: digits_def)
  show ?case
  proof (cases "n < 10")
    case True
    then show ?thesis by (subst decimal.simps) (simp add: d)
  next
    case False
    with 1 have "list_all digit (decimal (n div 10))" by simp
    with False show ?thesis by (subst decimal.simps) (simp add: d)
  qed
qed

lemma number_to_string_chars: "list_all (\<lambda>c. digit c \<or> c = CHR ''-'') (number_to_string i)"
  using decimal_digits [of "nat (- i)"] decimal_digits [of "nat i"]
  by (auto simp add: number_to_string_def list_all_iff)

text \<open>
  A prefix none of whose characters can start a match is skipped: here for a regular
  expression all of whose alternatives start with the same literal.
\<close>

lemma match_at_first_literal:
  assumes "\<forall>b \<in> set (branches r). \<exists>rest. before b = Lit w # rest"
    and "canonicalize c \<noteq> canonicalize w"
  shows "match_at r (c # s) = []"
proof -
  have "branch_at b (c # s) = []" if "b \<in> set (branches r)" for b
  proof -
    from assms(1) that obtain rest where "before b = Lit w # rest" by blast
    with assms(2) show ?thesis by (simp add: branch_at_def)
  qed
  then show ?thesis by (simp add: match_at_def)
qed

lemma str_match_skip_prefix:
  assumes "\<forall>b \<in> set (branches r). \<exists>rest. before b = Lit w # rest"
    and "list_all (\<lambda>c. canonicalize c \<noteq> canonicalize w) p"
  shows "str_match r (p @ t) = str_match r t"
  using assms(2)
proof (induction p)
  case Nil
  then show ?case by simp
next
  case (Cons c p)
  then have "match_at r (c # p @ t) = []"
    using match_at_first_literal [OF assms(1)] by simp
  with Cons show ?case by simp
qed

lemma not_a_letter:
  assumes "digit c \<or> c = CHR ''-''"
  shows "canonicalize c \<noteq> canonicalize CHR ''e''" and "canonicalize c \<noteq> canonicalize CHR ''f''"
  using assms by (auto simp add: digit_def digits_def)

lemma expiration_skip_number:
  "str_match expires_in_pattern (number_to_string i @ t) = str_match expires_in_pattern t"
  "str_match for_pattern (number_to_string i @ t) = str_match for_pattern t"
proof -
  have e: "list_all (\<lambda>c. canonicalize c \<noteq> canonicalize CHR ''e'') (number_to_string i)"
    and f: "list_all (\<lambda>c. canonicalize c \<noteq> canonicalize CHR ''f'') (number_to_string i)"
    using number_to_string_chars [of i] not_a_letter by (auto simp add: list_all_iff)
  have be: "\<forall>b \<in> set (branches expires_in_pattern). \<exists>rest. before b = Lit CHR ''e'' # rest"
    by (simp add: expires_in_pattern_def lits_def)
  have bf: "\<forall>b \<in> set (branches for_pattern). \<exists>rest. before b = Lit CHR ''f'' # rest"
    by (simp add: for_pattern_def lits_def)
  show "str_match expires_in_pattern (number_to_string i @ t) = str_match expires_in_pattern t"
    using str_match_skip_prefix [OF be e] .
  show "str_match for_pattern (number_to_string i @ t) = str_match for_pattern t"
    using str_match_skip_prefix [OF bf f] .
qed

lemma expiration_idempotent:
  assumes "str_match expires_in_pattern t \<noteq> None \<or> str_match for_pattern t \<noteq> None"
  shows "extractExpirationTime (number_to_string i @ t) d = extractExpirationTime t d"
proof -
  have chain: "extractExpirationTime x d =
     (case str_match expires_in_pattern x of Some m \<Rightarrow> parseInt (captured m) | None \<Rightarrow>
      (case str_match for_pattern x of Some m \<Rightarrow> parseInt (captured m) | None \<Rightarrow>
      (case str_match expir_pattern x of Some m \<Rightarrow> parseInt (captured m) | None \<Rightarrow>
      (case str_match minutes_pattern x of Some m \<Rightarrow> parseInt (captured m) | None \<Rightarrow>
      (case str_match hours_pattern x of Some m \<Rightarrow> 60 * parseInt (captured m) | None \<Rightarrow> d)))))"
    for x
    using expiration_chain [of x d] .
  show ?thesis
    using assms
    by (auto simp add: chain expiration_skip_number simp del: str_match.simps split: option.splits)
qed
subsection \<open>The type extractor\<close>

lemma test_exact_tag:
  "test (plain ''media:fast'') (''media:fast'' @ t)"
  "test (plain ''ollama_webui:coder'') (''ollama_webui:coder'' @ t)"
  by (simp_all add: test_def plain_def lits_def match_at_def branch_at_def)

lemma media_patterns_skip_coder_tag:
  "test (plain ''media:fast'') (''ollama_webui:coder'' @ t) = test (plain ''media:fast'') t"
  "test (plain ''media fast'') (''ollama_webui:coder'' @ t) = test (plain ''media fast'') t"
  "test (plain ''fast media'') (''ollama_webui:coder'' @ t) = test (plain ''fast media'') t"
  "test (gap ''media'' ''fast'') (''ollama_webui:coder'' @ t) = test (gap ''media'' ''fast'') t"
  by (simp_all add: test_def plain_def gap_def lits_def match_at_def branch_at_def)

lemma type_media_first:
  assumes "test (plain ''media:fast'') x"
  shows "extractWorkloadType x = Some ''media:fast''"
proof -
  have "x \<noteq> []"
    using assms by (auto simp add: test_def plain_def lits_def match_at_def branch_at_def)
  with assms show ?thesis
    by (simp add: extractWorkloadType_def WORKLOAD_TYPE_PATTERNS_def del: str_match.simps)
qed

lemma type_coder_second:
  assumes "\<not> test (plain ''media:fast'') x" "\<not> test (plain ''media fast'') x"
    "\<not> test (plain ''fast media'') x" "\<not> test (gap ''media'' ''fast'') x"
    and "test (plain ''ollama_webui:coder'') x"
  shows "extractWorkloadType x = Some ''ollama_webui:coder''"
proof -
  have "x \<noteq> []"
    using assms(5) by (auto simp add: test_def plain_def lits_def match_at_def branch_at_def)
  with assms show ?thesis
    by (simp add: extractWorkloadType_def WORKLOAD_TYPE_PATTERNS_def del: str_match.simps)
qed

lemma type_not_media:
  assumes "extractWorkloadType t = Some ''ollama_webui:coder''"
  shows "\<not> test (plain ''media:fast'') t" "\<not> test (plain ''media fast'') t"
    "\<not> test (plain ''fast media'') t" "\<not> test (gap ''media'' ''fast'') t"
  using assms
  by (auto simp add: extractWorkloadType_def WORKLOAD_TYPE_PATTERNS_def
      simp del: str_match.simps split: if_splits)

lemma type_idempotent:
  assumes "extractWorkloadType t = Some r" and "r = ''media:fast'' \<or> r = ''ollama_webui:coder''"
  shows "extractWorkloadType (r @ t) = Some r"
  using assms(2)
proof
  assume r: "r = ''media:fast''"
  show ?thesis
    unfolding r by (rule type_media_first) (rule test_exact_tag)
next
  assume r: "r = ''ollama_webui:coder''"
  note n = type_not_media [OF assms(1) [unfolded r]]
  show ?thesis
    unfolding r
    by (rule type_coder_second) (simp_all only: media_patterns_skip_coder_tag n test_exact_tag not_False_eq_True)
qed
subsection \<open>Rigid items\<close>

lemma consumed_prefix [simp]: "consumed (p @ r) r = p"
  by (simp add: consumed_def)

lemma consumed_self [simp]: "consumed s s = []"
  by (simp add: consumed_def)

lemma step_rigid:
  assumes "rigid i" and "s' \<in> set (step i s)"
  shows "step i (consumed s s' @ x) = [x]" and "\<forall>c \<in> set (consumed s s'). accepts i c"
    and "suffix s' s"
proof -
  show "suffix s' s" using step_suffix [OF assms(2)] .
  show "step i (consumed s s' @ x) = [x]"
  proof (cases i)
    case (Lit w)
    with assms(2) obtain c where "s = c # s'" "canonicalize c = canonicalize w"
      by (cases s) (auto split: if_splits)
    then have "consumed s s' = [c]" using consumed_prefix [of "[c]" s'] by simp
    with Lit \<open>canonicalize c = canonicalize w\<close> show ?thesis by simp
  next
    case (Rep n C)
    with assms(2) have n: "n \<le> length s" "list_all C (take n s)" "s' = drop n s"
      by (auto split: if_splits)
    then have "consumed s s' = take n s" using consumed_prefix [of "take n s" "drop n s"] by simp
    with Rep n show ?thesis by simp
  qed (use assms(1) in simp_all)
  show "\<forall>c \<in> set (consumed s s'). accepts i c"
  proof (cases i)
    case (Lit w)
    with assms(2) obtain c where "s = c # s'" "canonicalize c = canonicalize w"
      by (cases s) (auto split: if_splits)
    then have "consumed s s' = [c]" using consumed_prefix [of "[c]" s'] by simp
    with Lit \<open>canonicalize c = canonicalize w\<close> show ?thesis by simp
  next
    case (Rep n C)
    with assms(2) have n: "n \<le> length s" "list_all C (take n s)" "s' = drop n s"
      by (auto split: if_splits)
    then have "consumed s s' = take n s" using consumed_prefix [of "take n s" "drop n s"] by simp
    with Rep n show ?thesis by (simp add: list_all_iff)
  qed (use assms(1) in simp_all)
qed

lemma consumed_trans:
  assumes "suffix s' s" and "suffix s2 s'"
  shows "consumed s s2 = consumed s s' @ consumed s' s2"
proof -
  from assms obtain a b where "s = a @ s'" "s' = b @ s2" by (auto simp add: suffix_def)
  then show ?thesis
    using consumed_prefix [of "a @ b" s2] consumed_prefix [of a s'] consumed_prefix [of b s2]
    by simp
qed

lemma run_rigid:
  assumes "list_all rigid is" and "s2 \<in> set (run is s1)"
  shows "run is (consumed s1 s2 @ x) = [x]"
    and "\<forall>c \<in> set (consumed s1 s2). \<exists>i \<in> set is. accepts i c"
  using assms
proof (induction "is" arbitrary: s1)
  case Nil
  {
    case 1
    then show ?case by simp
  next
    case 2
    then show ?case by simp
  }
next
  case (Cons i "is")
  {
    case 1
    then obtain s' where s': "s' \<in> set (step i s1)" "s2 \<in> set (run is s')" by auto
    from 1 have r: "rigid i" "list_all rigid is" by simp_all
    have c: "consumed s1 s2 = consumed s1 s' @ consumed s' s2"
      using consumed_trans [OF step_suffix [OF s'(1)] run_suffix [OF s'(2)]] .
    show ?case
      using step_rigid(1) [OF r(1) s'(1), of "consumed s' s2 @ x"] Cons.IH(1) [OF r(2) s'(2)]
      by (simp add: c)
  next
    case 2
    then obtain s' where s': "s' \<in> set (step i s1)" "s2 \<in> set (run is s')" by auto
    from 2 have r: "rigid i" "list_all rigid is" by simp_all
    have c: "consumed s1 s2 = consumed s1 s' @ consumed s' s2"
      using consumed_trans [OF step_suffix [OF s'(1)] run_suffix [OF s'(2)]] .
    show ?case
      using step_rigid(2) [OF r(1) s'(1)] Cons.IH(2) [OF r(2) s'(2)]
      by (auto simp add: c)
  }
qed

lemma str_match_at_head: "match_at r s = m # ms \<Longrightarrow> str_match r s = Some m"
  by (cases s) simp_all

lemma str_match_None_iff:
  "str_match r s = None \<longleftrightarrow> (\<forall>a s'. s = a @ s' \<longrightarrow> match_at r s' = [])"
proof
  assume "str_match r s = None"
  then show "\<forall>a s'. s = a @ s' \<longrightarrow> match_at r s' = []"
  proof (induction s)
    case Nil
    then show ?case by (simp split: list.splits)
  next
    case (Cons c cs)
    then have h: "match_at r (c # cs) = []" and t: "str_match r cs = None"
      by (simp_all split: list.splits)
    show ?case
    proof (intro allI impI)
      fix a s' assume e: "c # cs = a @ s'"
      show "match_at r s' = []"
      proof (cases a)
        case Nil
        with e h show ?thesis by simp
      next
        case (Cons c' a')
        with e have "cs = a' @ s'" by simp
        with Cons.IH [OF t] show ?thesis by blast
      qed
    qed
  qed
next
  assume a: "\<forall>a s'. s = a @ s' \<longrightarrow> match_at r s' = []"
  show "str_match r s = None"
  proof (rule ccontr)
    assume "str_match r s \<noteq> None"
    then obtain m where "str_match r s = Some m" by blast
    from str_match_Some [OF this] a show False by fastforce
  qed
qed

subsection \<open>The identifier extractor: UUID results\<close>

lemma uuid_match_at:
  "match_at uuidPattern s =
     map (\<lambda>s2. \<lparr>matched = consumed s s2, captured = consumed s s2\<rparr>) (run uuid_items s)"
  by (simp add: uuidPattern_def match_at_def branch_at_def)

lemma uuid_rigid: "list_all rigid uuid_items"
  by (simp add: uuid_items_def)

lemma uuid_found:
  assumes "s2 \<in> set (run uuid_items s1)"
  shows "str_match uuidPattern (consumed s1 s2 @ x)
           = Some \<lparr>matched = consumed s1 s2, captured = consumed s1 s2\<rparr>"
proof -
  have "match_at uuidPattern (consumed s1 s2 @ x)
          = [\<lparr>matched = consumed s1 s2, captured = consumed s1 s2\<rparr>]"
    by (simp add: uuid_match_at run_rigid(1) [OF uuid_rigid assms])
  then show ?thesis by (rule str_match_at_head)
qed

lemma uuid_idempotent:
  assumes "str_match uuidPattern t = Some m"
  shows "str_match uuidPattern (captured m @ t) = Some \<lparr>matched = captured m, captured = captured m\<rparr>"
proof -
  from str_match_Some [OF assms] obtain s' where "m \<in> set (match_at uuidPattern s')" by blast
  then obtain s2 where "s2 \<in> set (run uuid_items s')" "captured m = consumed s' s2"
    by (auto simp add: uuid_match_at)
  with uuid_found [of s2 s' t] show ?thesis by simp
qed

subsection \<open>The identifier extractor: domain results\<close>

lemma star_first:
  assumes "list_all C p" and "y = [] \<or> \<not> C (hd y)"
  shows "\<exists>rest. star C (p @ y) = y # rest"
  using assms(1)
proof (induction p)
  case Nil
  from assms(2) show ?case by (cases y) auto
next
  case (Cons c p)
  then obtain rest where "star C (p @ y) = y # rest" by auto
  with Cons.prems show ?case by simp
qed

lemma domain_match_at:
  "match_at comput3DomainPattern s =
     map (\<lambda>s2. \<lparr>matched = consumed s s2, captured = consumed s s2\<rparr>) (run domain_items s)"
  by (simp add: comput3DomainPattern_def match_at_def branch_at_def)

lemma suffix_rigid: "list_all rigid (lits ''.comput3.ai'')"
  by (simp add: lits_def)

lemma dot_not_alnum_hyphen: "canonicalize d = canonicalize CHR ''.'' \<Longrightarrow> \<not> alnum_hyphen d"
  by (auto simp add: alnum_hyphen_def alnum_def alpha_def digit_def lower_alpha_def
      upper_alpha_def digits_def)

lemma i_not_uuid_char:
  "canonicalize e = canonicalize CHR ''i'' \<Longrightarrow> \<not> hex e \<and> canonicalize e \<noteq> canonicalize CHR ''-''"
  by (auto simp add: hex_def)

lemma run_lits: "run (lits w) s = (if lit_prefix w s then [drop (length w) s] else [])"
proof (induction w arbitrary: s)
  case Nil
  then show ?case by (simp add: lits_def)
next
  case (Cons c w)
  then show ?case by (cases s) (simp_all add: lits_def)
qed

lemma lit_prefix_hd:
  "lit_prefix (w # ws) s \<Longrightarrow> s \<noteq> [] \<and> canonicalize (hd s) = canonicalize w"
  by (cases s) simp_all

lemma lit_prefix_last:
  "lit_prefix w s \<Longrightarrow> length s = length w \<Longrightarrow> w \<noteq> [] \<Longrightarrow>
     canonicalize (last s) = canonicalize (last w)"
  by (induction w s rule: lit_prefix.induct) auto

text \<open>
  What the domain pattern captures: a letter, digit or hyphen, more of them, and then a
  run that matches \<open>.comput3.ai\<close> and ends with \<open>i\<close> or \<open>I\<close>.
\<close>

lemma domain_shape:
  assumes "s2 \<in> set (run domain_items s1)"
  shows "\<exists>x p L. consumed s1 s2 = x # p @ L \<and> alnum_hyphen x \<and> list_all alnum_hyphen p
           \<and> L \<noteq> [] \<and> \<not> alnum_hyphen (hd L)
           \<and> canonicalize (last L) = canonicalize CHR ''i''
           \<and> (\<forall>y. run (lits ''.comput3.ai'') (L @ y) = [y])"
proof -
  from assms obtain s' where s': "s' \<in> set (step (Plus alnum_hyphen) s1)"
    and s2: "s2 \<in> set (run (lits ''.comput3.ai'') s')"
    by (auto simp add: domain_items_def)
  from s' obtain x cs where s1: "s1 = x # cs" and x: "alnum_hyphen x"
    and st: "s' \<in> set (star alnum_hyphen cs)"
    by (cases s1) (auto split: if_splits)
  from star_split [OF st] obtain p where p: "cs = p @ s'" "list_all alnum_hyphen p" by blast
  define L where "L = consumed s' s2"
  have r: "\<And>y. run (lits ''.comput3.ai'') (L @ y) = [y]"
    unfolding L_def using run_rigid(1) [OF suffix_rigid s2] .
  have sL: "s' = L @ s2"
    unfolding L_def using consumed_append [OF run_suffix [OF s2]] by simp
  have c: "consumed s1 s2 = x # p @ L"
    using consumed_prefix [of "x # p @ L" s2] by (simp add: s1 p(1) sL)
  from r [of "[]"] have lp: "lit_prefix ''.comput3.ai'' L" and len: "length L \<le> 11"
    by (auto simp add: run_lits split: if_splits)
  from lit_prefix_length [OF lp] len have "length L = length ''.comput3.ai''" by simp
  with lit_prefix_hd [of "CHR ''.''" "''comput3.ai''" L] lit_prefix_last [of "''.comput3.ai''" L] lp
  have shape: "L \<noteq> [] \<and> canonicalize (hd L) = canonicalize CHR ''.''
      \<and> canonicalize (last L) = canonicalize CHR ''i''"
    by simp
  with dot_not_alnum_hyphen have "\<not> alnum_hyphen (hd L)" by blast
  with c x p(2) shape r show ?thesis by blast
qed

lemma domain_found:
  assumes "s2 \<in> set (run domain_items s1)"
  shows "str_match comput3DomainPattern (consumed s1 s2 @ t)
           = Some \<lparr>matched = consumed s1 s2, captured = consumed s1 s2\<rparr>"
proof -
  from domain_shape [OF assms] obtain x p L where
    c: "consumed s1 s2 = x # p @ L" and x: "alnum_hyphen x" and p: "list_all alnum_hyphen p"
    and L: "L \<noteq> []" "\<not> alnum_hyphen (hd L)"
    and r: "\<forall>y. run (lits ''.comput3.ai'') (L @ y) = [y]"
    by blast
  from L have "L @ t = [] \<or> \<not> alnum_hyphen (hd (L @ t))" by simp
  from star_first [OF p this] obtain rest where
    "star alnum_hyphen (p @ L @ t) = (L @ t) # rest" by blast
  with x r have "\<exists>rest'. run domain_items ((x # p @ L) @ t) = t # rest'"
    by (simp add: domain_items_def)
  then obtain rest' where "run domain_items ((x # p @ L) @ t) = t # rest'" by blast
  then have "\<exists>ms. match_at comput3DomainPattern (consumed s1 s2 @ t)
          = \<lparr>matched = consumed s1 s2, captured = consumed s1 s2\<rparr> # ms"
    using consumed_prefix [of "consumed s1 s2" t] by (simp add: domain_match_at c)
  then show ?thesis using str_match_at_head by blast
qed

lemma uuid_chars:
  assumes "s2 \<in> set (run uuid_items s1)"
  shows "\<forall>c \<in> set (consumed s1 s2). hex c \<or> canonicalize c = canonicalize CHR ''-''"
  using run_rigid(2) [OF uuid_rigid assms] by (auto simp add: uuid_items_def)

lemma no_uuid_across:
  assumes none: "str_match uuidPattern t = None"
    and inside: "t = A @ r @ B"
    and r: "r \<noteq> []" "canonicalize (last r) = canonicalize CHR ''i''"
  shows "str_match uuidPattern (r @ t) = None"
proof (rule ccontr)
  assume "str_match uuidPattern (r @ t) \<noteq> None"
  then obtain m where "str_match uuidPattern (r @ t) = Some m" by blast
  from str_match_Some [OF this] obtain a s' where
    split: "r @ t = a @ s'" and "m \<in> set (match_at uuidPattern s')" by blast
  then obtain s2 where s2: "s2 \<in> set (run uuid_items s')" by (auto simp add: uuid_match_at)
  define u where "u = consumed s' s2"
  have s': "s' = u @ s2" unfolding u_def using consumed_append [OF run_suffix [OF s2]] by simp
  have found: "match_at uuidPattern (u @ y) \<noteq> []" for y
    unfolding u_def by (simp add: uuid_match_at run_rigid(1) [OF uuid_rigid s2])
  have chars: "\<forall>c \<in> set u. hex c \<or> canonicalize c = canonicalize CHR ''-''"
    unfolding u_def using uuid_chars [OF s2] .
  have absurd: False if "t = v @ u @ y" for v y
    using none found [of y] that by (auto simp add: str_match_None_iff)
  from split s' have "r @ t = a @ u @ s2" by simp
  then have "(\<exists>v. r = a @ v \<and> v @ t = u @ s2) \<or> (\<exists>v. r @ v = a \<and> t = v @ u @ s2)"
    unfolding append_eq_append_conv2 [of r t a "u @ s2"] by blast
  then show False
  proof
    assume "\<exists>v. r @ v = a \<and> t = v @ u @ s2"
    then show False using absurd by blast
  next
    assume "\<exists>v. r = a @ v \<and> v @ t = u @ s2"
    then obtain v where v: "r = a @ v" "v @ t = u @ s2" by blast
    from v(2) have "(\<exists>w. v = u @ w \<and> w @ t = s2) \<or> (\<exists>w. v @ w = u \<and> t = w @ s2)"
      unfolding append_eq_append_conv2 [of v t u s2] by blast
    then show False
    proof
      assume "\<exists>w. v = u @ w \<and> w @ t = s2"
      then obtain w where "v = u @ w" by blast
      with v(1) inside have "t = (A @ a) @ u @ (w @ B)" by simp
      then show False using absurd by blast
    next
      assume "\<exists>w. v @ w = u \<and> t = w @ s2"
      then obtain w where w: "v @ w = u" "t = w @ s2" by blast
      show False
      proof (cases "v = []")
        case True
        with w have "t = [] @ u @ s2" by simp
        then show False using absurd by blast
      next
        case False
        with v(1) w(1) have "last r \<in> set u" by auto
        with chars r(2) i_not_uuid_char [of "last r"] show False by blast
      qed
    qed
  qed
qed

lemma domain_idempotent:
  assumes none: "str_match uuidPattern t = None"
    and m: "str_match comput3DomainPattern t = Some m"
  shows "str_match uuidPattern (captured m @ t) = None"
    and "str_match comput3DomainPattern (captured m @ t)
           = Some \<lparr>matched = captured m, captured = captured m\<rparr>"
proof -
  from str_match_Some [OF m] obtain s' where "m \<in> set (match_at comput3DomainPattern s')"
    by blast
  then obtain s2 where s2: "s2 \<in> set (run domain_items s')" and c: "captured m = consumed s' s2"
    by (auto simp add: domain_match_at)
  from domain_found [OF s2, of t] c
  show "str_match comput3DomainPattern (captured m @ t)
           = Some \<lparr>matched = captured m, captured = captured m\<rparr>"
    by simp
  from domain_shape [OF s2] c obtain x p L where
    "captured m = x # p @ L" "L \<noteq> []" "canonicalize (last L) = canonicalize CHR ''i''"
    by auto
  then have r: "captured m \<noteq> []" "canonicalize (last (captured m)) = canonicalize CHR ''i''"
    by simp_all
  from captured_in_text [OF m] obtain A B where "t = A @ captured m @ B" by blast
  from no_uuid_across [OF none this r] show "str_match uuidPattern (captured m @ t) = None" .
qed

lemma id_idempotent:
  assumes "extractWorkloadId t = Some r"
    and "str_match uuidPattern t \<noteq> None \<or> str_match comput3DomainPattern t \<noteq> None"
  shows "extractWorkloadId (r @ t) = Some r"
proof (cases "str_match uuidPattern t")
  case (Some m)
  with assms(1) have r: "r = captured m" by (simp add: extractWorkloadId_chain del: str_match.simps)
  show ?thesis
    unfolding r using uuid_idempotent [OF Some]
    by (simp add: extractWorkloadId_chain [of "captured m @ t"] del: str_match.simps)
next
  case None
  with assms(2) obtain m where m: "str_match comput3DomainPattern t = Some m" by blast
  with None assms(1) have r: "r = captured m"
    by (simp add: extractWorkloadId_chain del: str_match.simps)
  show ?thesis
    unfolding r using domain_idempotent [OF None m]
    by (simp add: extractWorkloadId_chain [of "captured m @ t"] del: str_match.simps)
qed

subsection \<open>Where the result survives\<close>

text \<open>
  C8 as it is written fails for each of the three extractors. The text
  \<open>coder, fast ollama\<close> gives \<open>ollama_webui:fast\<close>, but with that result in front the
  earlier pattern \<open>ollama.*coder\<close> matches; \<open>5 minutes\<close> gives 5, but \<open>55 minutes\<close>
  gives 55; \<open>wrk_abc\<close> gives \<open>wrk_abc\<close>, but \<open>wrk_abcwrk_abc\<close> gives \<open>wrk_abcwrk\<close>.
\<close>

theorem result_in_front_changes_result:
  "extractWorkloadType ''coder, fast ollama'' = Some ''ollama_webui:fast''
   \<and> extractWorkloadType (''ollama_webui:fast'' @ ''coder, fast ollama'') = Some ''ollama_webui:coder''
   \<and> extractExpirationTime ''5 minutes'' 10 = 5
   \<and> extractExpirationTime (number_to_string 5 @ ''5 minutes'') 10 = 55
   \<and> extractWorkloadId ''wrk_abc'' = Some ''wrk_abc''
   \<and> extractWorkloadId (''wrk_abc'' @ ''wrk_abc'') = Some ''wrk_abcwrk''"
  by code_simp

text \<open>
  C8, amended. Putting the result in front of the text leaves the result unchanged
  \<^item> for \<open>extractWorkloadType\<close>, when the result is \<open>media:fast\<close> or \<open>ollama_webui:coder\<close>,
    the first two declared types;
  \<^item> for \<open>extractExpirationTime\<close>, when the text matches \<open>expires in N minutes\<close> or
    \<open>for N minutes\<close>, the two patterns that begin with a word (the result is put in front
    in decimal; numbers are exact here);
  \<^item> for \<open>extractWorkloadId\<close>, when the text matches the UUID pattern or the domain
    pattern.
\<close>

theorem result_in_front_keeps_result:
  "(extractWorkloadType t = Some r \<and> (r = ''media:fast'' \<or> r = ''ollama_webui:coder'') \<longrightarrow>
      extractWorkloadType (r @ t) = Some r)
   \<and> (str_match expires_in_pattern t' \<noteq> None \<or> str_match for_pattern t' \<noteq> None \<longrightarrow>
      extractExpirationTime (number_to_string (extractExpirationTime t' d) @ t') d
        = extractExpirationTime t' d)
   \<and> (extractWorkloadId t'' = Some w
        \<and> (str_match uuidPattern t'' \<noteq> None \<or> str_match comput3DomainPattern t'' \<noteq> None) \<longrightarrow>
      extractWorkloadId (w @ t'') = Some w)"
  using type_idempotent [of t r] expiration_idempotent [of t' "extractExpirationTime t' d" d]
    id_idempotent [of t'' w]
  by blast

theorem result_in_front_keeps_result_witness:
  "extractWorkloadType ''a coding workload'' = Some ''ollama_webui:coder''
   \<and> extractWorkloadType (''ollama_webui:coder'' @ ''a coding workload'') = Some ''ollama_webui:coder''
   \<and> str_match for_pattern ''for 30 minutes'' \<noteq> None
   \<and> extractExpirationTime ''for 30 minutes'' 10 = 30
   \<and> extractExpirationTime (number_to_string 30 @ ''for 30 minutes'') 10 = 30
   \<and> str_match comput3DomainPattern ''stop abc.comput3.ai now'' \<noteq> None
   \<and> extractWorkloadId ''stop abc.comput3.ai now'' = Some ''abc.comput3.ai''
   \<and> extractWorkloadId (''abc.comput3.ai'' @ ''stop abc.comput3.ai now'') = Some ''abc.comput3.ai''"
proof -
  have a: "extractWorkloadType ''a coding workload'' = Some ''ollama_webui:coder''" by code_simp
  have b: "str_match for_pattern ''for 30 minutes'' \<noteq> None" by code_simp
  have c: "extractExpirationTime ''for 30 minutes'' 10 = 30" by code_simp
  have d: "str_match comput3DomainPattern ''stop abc.comput3.ai now'' \<noteq> None" by code_simp
  have e: "extractWorkloadId ''stop abc.comput3.ai now'' = Some ''abc.comput3.ai''" by code_simp
  show ?thesis
    using result_in_front_keeps_result [of "''a coding workload''" "''ollama_webui:coder''"
        "''for 30 minutes''" 10 "''stop abc.comput3.ai now''" "''abc.comput3.ai''"]
      a b c d e
    by (simp del: str_match.simps)
qed

end
